theory Spec2Isabelle
  imports Complex_Main "HOL-Library.Word" "HOL-Library.Log_Nat"
begin

section \<open>Machine types\<close>

text \<open>
  The engine is built with Emscripten (\<^verbatim>\<open>#include <emscripten.h>\<close>,
  \<^verbatim>\<open>EMSCRIPTEN_KEEPALIVE\<close>), whose target is wasm32: \<^verbatim>\<open>size_t\<close> is an
  unsigned 32-bit integer and \<^verbatim>\<open>int\<close> a signed 32-bit integer. Both are 32-bit
  words here; \<open>unat\<close> reads a \<^verbatim>\<open>size_t\<close>, \<open>sint\<close> reads an \<^verbatim>\<open>int\<close>, and
  the conversion of an \<^verbatim>\<open>int\<close> to \<^verbatim>\<open>size_t\<close> keeps the bits. Arithmetic on
  \<^verbatim>\<open>size_t\<close> wraps around, as \<open>+\<close>, \<open>-\<close> and \<open>*\<close> on words do.

  A \<^verbatim>\<open>float\<close> is the real number it stands for. The \<^verbatim>\<open>float\<close> product of
  \<^verbatim>\<open>seek\<close>, whose truncation becomes a sample index, is rounded to binary32 as
  the machine rounds it (\<open>round32\<close> below, to nearest, ties to even), and so is
  the conversion of the \<^verbatim>\<open>int\<close> sample rate to \<^verbatim>\<open>float\<close>. The divisions and
  the subtraction of \<^verbatim>\<open>get_current_time\<close>, whose result is only returned, are
  exact: the value here is the one the machine rounds to the \<^verbatim>\<open>float\<close> it
  returns. An operation whose C++ result is not a real number (a division by
  zero, a conversion out of range) is a \<open>fault\<close>.
\<close>

type_synonym size_t = "32 word"
type_synonym c_int = "32 word"
type_synonym Uint32 = "32 word"
type_synonym byte = "8 word"
type_synonym sample = real

datatype fault =
    DivisionByZero          \<comment> \<open>integer division or remainder by zero\<close>
  | ConversionOutOfRange    \<comment> \<open>\<^verbatim>\<open>(size_t)x\<close> for a float outside the range of \<^verbatim>\<open>size_t\<close>\<close>
  | SignedOverflow          \<comment> \<open>overflow of a signed \<^verbatim>\<open>int\<close> product\<close>
  | NonFinite               \<comment> \<open>a floating-point division by zero (infinity or NaN)\<close>

subsection \<open>Rounding to binary32\<close>

text \<open>
  \<open>exponent2 x\<close> is the binary exponent of a positive \<open>x\<close>, the \<open>e\<close> with
  \<open>2 ^ e \<le> x < 2 ^ (e + 1)\<close>, read off the bit length of the integer part (of
  the reciprocal below 1). A binary32 number has 24 significant bits, so around
  \<open>x\<close> the numbers are \<open>2 ^ (e - 23)\<close> apart, and from \<open>2 ^ (- 126)\<close> down they
  keep the spacing of the smallest normal numbers. \<open>round32 x\<close> is the multiple of
  that spacing nearest to \<open>x\<close>, the even one of two that are equally near. A
  result beyond the largest binary32 number is infinite on the machine and a
  number of at least \<open>2 ^ 127\<close> here; both are out of the range of \<^verbatim>\<open>size_t\<close>.
\<close>

definition exponent2 :: "real \<Rightarrow> int" where
  "exponent2 x = (if 1 \<le> x then bitlen \<lfloor>x\<rfloor> - 1 else - bitlen (\<lceil>1 / x\<rceil> - 1))"

definition ulp32 :: "real \<Rightarrow> real" where
  "ulp32 x =
     (let e = max (exponent2 x) (- 126)
      in if 23 \<le> e then 2 ^ nat (e - 23) else 1 / 2 ^ nat (23 - e))"

definition round_half_even :: "real \<Rightarrow> int" where
  "round_half_even y =
     (let f = \<lfloor>y\<rfloor>; d = y - of_int f
      in if d < 1 / 2 then f else if 1 / 2 < d then f + 1 else if even f then f else f + 1)"

definition round32 :: "real \<Rightarrow> real" where
  "round32 x =
     (if x = 0 then 0
      else sgn x * (ulp32 \<bar>x\<bar> * of_int (round_half_even (\<bar>x\<bar> / ulp32 \<bar>x\<bar>))))"

text \<open>The conversion of an \<^verbatim>\<open>int\<close> to \<^verbatim>\<open>float\<close> and the \<^verbatim>\<open>float\<close> product.\<close>

definition int_to_float :: "c_int \<Rightarrow> real" where
  "int_to_float i = round32 (real_of_int (sint i))"

definition mul32 :: "real \<Rightarrow> real \<Rightarrow> real" where
  "mul32 a b = round32 (a * b)"

text \<open>\<^verbatim>\<open>(size_t)x\<close> for a floating-point \<open>x\<close>: truncation towards zero, defined
  only when the truncated value fits.\<close>

definition float_to_size_t :: "real \<Rightarrow> fault + size_t" where
  "float_to_size_t x =
     (if x \<le> - 1 \<or> 2 ^ 32 \<le> x then Inl ConversionOutOfRange
      else Inr (word_of_int (if x < 0 then 0 else \<lfloor>x\<rfloor>)))"

section \<open>The engine over SDL3 (\<^verbatim>\<open>audio_engine.cpp\<close>)\<close>

subsection \<open>The audio stream\<close>

text \<open>
  Modelled from the spec: the SDL3 audio stream is the external output pipeline of
  the spec's section 4.3, with the operations enqueue, pending amount, clear and
  set gain. The stream is created with the same source and destination format, so
  its pending amount is counted in samples of the source format, four bytes each.
  \<open>queuedSamples\<close> holds the samples put into the stream and not yet consumed by
  the device.
\<close>

record SDL_AudioStream =
  queuedSamples :: "sample list"
  gain :: real
  boundToDevice :: bool

definition SDL_GetAudioStreamAvailable :: "SDL_AudioStream \<Rightarrow> c_int" where
  "SDL_GetAudioStreamAvailable st = word_of_nat (4 * length (queuedSamples st))"

text \<open>\<open>len\<close> is a byte count passed as \<^verbatim>\<open>int\<close>; a negative one is refused.\<close>

definition SDL_PutAudioStreamData :: "SDL_AudioStream \<Rightarrow> sample list \<Rightarrow> c_int \<Rightarrow> SDL_AudioStream" where
  "SDL_PutAudioStreamData st buf len =
     (if sint len < 0 then st
      else st\<lparr>queuedSamples := queuedSamples st @ take (nat (sint len) div 4) buf\<rparr>)"

definition SDL_ClearAudioStream :: "SDL_AudioStream \<Rightarrow> SDL_AudioStream" where
  "SDL_ClearAudioStream st = st\<lparr>queuedSamples := []\<rparr>"

definition SDL_SetAudioStreamGain :: "SDL_AudioStream \<Rightarrow> real \<Rightarrow> SDL_AudioStream" where
  "SDL_SetAudioStreamGain st g = st\<lparr>gain := g\<rparr>"

subsection \<open>The state\<close>

text \<open>
  \<^verbatim>\<open>struct PlayerState\<close>, shared by both back ends (the SDL2 one adds two
  fields). \<open>stream\<close> is the pointer to the stream: \<open>None\<close> is \<^verbatim>\<open>nullptr\<close>, and
  \<open>Some st\<close> carries the state of the one stream the pointer owns. \<open>devicePaused\<close>
  is not a field of the struct: it is the state of the SDL device \<open>deviceId\<close>
  names, which \<^verbatim>\<open>SDL_PauseAudioDevice\<close> and \<^verbatim>\<open>SDL_ResumeAudioDevice\<close> change.
\<close>

record 'st PlayerState =
  stream :: "'st option"
  audioBuffer :: "sample list"
  isPlaying :: bool
  volume :: real
  sampleRate :: c_int
  channels :: c_int
  playHead :: size_t
  deviceId :: Uint32
  devicePaused :: bool

type_synonym PlayerState_sdl3 = "SDL_AudioStream PlayerState"

definition g_state :: PlayerState_sdl3 where
  "g_state = \<lparr>stream = None, audioBuffer = [], isPlaying = False, volume = 1,
     sampleRate = 44100, channels = 2, playHead = 0, deviceId = 0, devicePaused = False\<rparr>"

text \<open>\<^verbatim>\<open>g_state.audioBuffer.size()\<close>.\<close>

definition buffer_size :: "('st, 'x) PlayerState_scheme \<Rightarrow> size_t" where
  "buffer_size s = word_of_nat (length (audioBuffer s))"

text \<open>\<^verbatim>\<open>&g_state.audioBuffer[g_state.playHead]\<close>: the samples from the play head on.\<close>

definition from_playHead :: "('st, 'x) PlayerState_scheme \<Rightarrow> sample list" where
  "from_playHead s = drop (unat (playHead s)) (audioBuffer s)"

subsection \<open>Loading\<close>

text \<open>
  What the environment answers during a load. \<^verbatim>\<open>audioBuffer.assign\<close> either
  succeeds or throws; after a throw the vector holds what the failed assignment
  left (C++ promises a valid vector, not the old contents).
  \<^verbatim>\<open>SDL_CreateAudioStream\<close> and \<^verbatim>\<open>SDL_BindAudioStream\<close> succeed or fail.
\<close>

datatype assign_result = Assigned | Threw "sample list"

record load_env =
  assign :: assign_result
  createStream :: bool
  bindStream :: bool

text \<open>\<open>buf\<close> is the range \<^verbatim>\<open>[data, data + length)\<close> the caller passes.\<close>

definition set_audio_data ::
  "load_env \<Rightarrow> sample list \<Rightarrow> c_int \<Rightarrow> c_int \<Rightarrow> PlayerState_sdl3 \<Rightarrow> PlayerState_sdl3" where
  "set_audio_data env buf chans rate s =
     (let s1 = s\<lparr>stream := None\<rparr> in
      case assign env of
        Threw left \<Rightarrow> s1\<lparr>audioBuffer := left\<rparr>
      | Assigned \<Rightarrow>
          let s2 = s1\<lparr>audioBuffer := buf, channels := chans, sampleRate := rate,
                      playHead := 0, isPlaying := False\<rparr>
          in if createStream env
             then s2\<lparr>stream := Some \<lparr>queuedSamples = [], gain = 1,
                                      boundToDevice = bindStream env\<rparr>\<rparr>
             else s2)"

subsection \<open>Transport\<close>

definition play :: "PlayerState_sdl3 \<Rightarrow> PlayerState_sdl3" where
  "play s =
     (case stream s of
        None \<Rightarrow> s
      | Some st \<Rightarrow>
          if audioBuffer s = [] then s
          else if isPlaying s then s
          else
            let s1 = s\<lparr>isPlaying := True, devicePaused := False\<rparr>;
                queued = SDL_GetAudioStreamAvailable st
            in if queued = 0 \<and> playHead s1 < buffer_size s1
               then
                 let samplesRemaining = buffer_size s1 - playHead s1
                 in s1\<lparr>stream := Some (SDL_PutAudioStreamData st (from_playHead s1)
                                          (samplesRemaining * 4))\<rparr>
               else s1)"

definition pause_audio :: "PlayerState_sdl3 \<Rightarrow> PlayerState_sdl3" where
  "pause_audio s =
     (if isPlaying s then s\<lparr>isPlaying := False, devicePaused := True\<rparr> else s)"

definition resume_audio :: "PlayerState_sdl3 \<Rightarrow> PlayerState_sdl3" where
  "resume_audio s =
     (if isPlaying s then s else s\<lparr>isPlaying := True, devicePaused := False\<rparr>)"

definition stop :: "PlayerState_sdl3 \<Rightarrow> PlayerState_sdl3" where
  "stop s =
     (case stream s of
        None \<Rightarrow> s
      | Some st \<Rightarrow> s\<lparr>stream := Some (SDL_ClearAudioStream st), isPlaying := False,
                      playHead := 0\<rparr>)"

text \<open>The frame-aligned, clamped sample index of \<^verbatim>\<open>seek\<close>, shared by both back
  ends: the two sources compute it with the same three statements. \<open>time\<close> is
  the \<^verbatim>\<open>float\<close> argument; \<^verbatim>\<open>time * g_state.sampleRate\<close> converts the rate to
  \<^verbatim>\<open>float\<close> and multiplies in \<^verbatim>\<open>float\<close>.\<close>

definition seek_index :: "real \<Rightarrow> ('st, 'x) PlayerState_scheme \<Rightarrow> fault + size_t" where
  "seek_index time s =
     (case float_to_size_t (mul32 time (int_to_float (sampleRate s))) of
        Inl e \<Rightarrow> Inl e
      | Inr n \<Rightarrow>
          let sampleIndex = n * channels s
          in if channels s = 0 then Inl DivisionByZero
             else
               let sampleIndex = sampleIndex - sampleIndex mod channels s
               in Inr (if buffer_size s \<le> sampleIndex then buffer_size s else sampleIndex))"

definition seek :: "real \<Rightarrow> PlayerState_sdl3 \<Rightarrow> fault + PlayerState_sdl3" where
  "seek time s =
     (case stream s of
        None \<Rightarrow> Inr s
      | Some st \<Rightarrow>
          if audioBuffer s = [] then Inr s
          else
            (case seek_index time s of
               Inl e \<Rightarrow> Inl e
             | Inr sampleIndex \<Rightarrow>
                 let s1 = s\<lparr>playHead := sampleIndex\<rparr>;
                     st1 = SDL_ClearAudioStream st
                 in if isPlaying s1
                    then
                      let samplesRemaining = buffer_size s1 - playHead s1
                      in if 0 < samplesRemaining
                         then Inr (s1\<lparr>stream := Some (SDL_PutAudioStreamData st1
                                           (from_playHead s1) (samplesRemaining * 4))\<rparr>)
                         else Inr (s1\<lparr>stream := Some st1\<rparr>)
                    else Inr (s1\<lparr>stream := Some st1\<rparr>)))"

definition get_current_time :: "PlayerState_sdl3 \<Rightarrow> fault + real" where
  "get_current_time s =
     (case stream s of
        None \<Rightarrow> Inr 0
      | Some st \<Rightarrow>
          if audioBuffer s = [] then Inr 0
          else
            let queuedBytes = SDL_GetAudioStreamAvailable st;
                samplesQueued = queuedBytes div 4;
                totalSamplesToPlay = buffer_size s - playHead s;
                samplesPlayedSinceSeek = totalSamplesToPlay - samplesQueued;
                currentSampleIndex = playHead s + samplesPlayedSinceSeek;
                currentSampleIndex =
                  (if buffer_size s < currentSampleIndex then buffer_size s
                   else currentSampleIndex)
            in if channels s = 0 then Inl DivisionByZero
               else
                 let frames = currentSampleIndex div channels s
                 in if sampleRate s = 0 then Inl NonFinite
                    else Inr (real (unat frames) / real_of_int (sint (sampleRate s))))"

definition set_volume :: "real \<Rightarrow> PlayerState_sdl3 \<Rightarrow> PlayerState_sdl3" where
  "set_volume vol s =
     (let s1 = s\<lparr>volume := vol\<rparr> in
      case stream s1 of
        None \<Rightarrow> s1
      | Some st \<Rightarrow> s1\<lparr>stream := Some (SDL_SetAudioStreamGain st vol)\<rparr>)"

section \<open>The engine over SDL2 (\<^verbatim>\<open>audio_engine_sdl2.cpp\<close>)\<close>

subsection \<open>The converting stream and the device queue\<close>

text \<open>
  Modelled from the spec: the SDL2 pipeline is a converting stream in front of the
  device's queue. The stream turns samples of the source format into bytes of the
  device's format (\<open>convert\<close>, the conversion arithmetic the spec leaves to the
  primitive); \<open>converted\<close> holds the bytes converted and not yet fetched. The
  device queue holds the bytes queued and not yet played, and its size is the
  pending amount. The stream takes every put with a byte count that is not
  negative, and \<^verbatim>\<open>SDL_AudioStreamGet\<close> fetches all that is available.
\<close>

record AudioStream_sdl2 =
  convert :: "sample list \<Rightarrow> byte list"
  converted :: "byte list"

definition SDL_AudioStreamPut :: "AudioStream_sdl2 \<Rightarrow> sample list \<Rightarrow> c_int \<Rightarrow> AudioStream_sdl2" where
  "SDL_AudioStreamPut st buf len =
     (if sint len < 0 then st
      else st\<lparr>converted := converted st @ convert st (take (nat (sint len) div 4) buf)\<rparr>)"

definition SDL_AudioStreamAvailable :: "AudioStream_sdl2 \<Rightarrow> c_int" where
  "SDL_AudioStreamAvailable st = word_of_nat (length (converted st))"

definition SDL_AudioStreamClear :: "AudioStream_sdl2 \<Rightarrow> AudioStream_sdl2" where
  "SDL_AudioStreamClear st = st\<lparr>converted := []\<rparr>"

text \<open>\<^verbatim>\<open>struct PlayerState\<close> of the SDL2 file. \<open>deviceQueue\<close> is not a field of
  the struct: it is the queue of the SDL device \<open>deviceId\<close> names.\<close>

record PlayerState_sdl2 = "AudioStream_sdl2 PlayerState" +
  deviceFreq :: c_int
  deviceChannels :: c_int
  deviceQueue :: "byte list"

definition g_state_sdl2 :: PlayerState_sdl2 where
  "g_state_sdl2 = \<lparr>stream = None, audioBuffer = [], isPlaying = False, volume = 1,
     sampleRate = 44100, channels = 2, playHead = 0, deviceId = 0, devicePaused = False,
     deviceFreq = 44100, deviceChannels = 2, deviceQueue = []\<rparr>"

definition SDL_GetQueuedAudioSize :: "PlayerState_sdl2 \<Rightarrow> Uint32" where
  "SDL_GetQueuedAudioSize s = word_of_nat (length (deviceQueue s))"

text \<open>
  The block both \<^verbatim>\<open>play\<close> and \<^verbatim>\<open>seek\<close> run to push \<open>samplesRemaining\<close>
  samples from the play head: put them into the stream, fetch everything the
  stream has converted, queue it on the device. With no stream
  (\<^verbatim>\<open>SDL_AudioStreamPut\<close> and \<^verbatim>\<open>SDL_AudioStreamAvailable\<close> on a null stream)
  nothing is queued.
\<close>

definition push_remaining :: "size_t \<Rightarrow> PlayerState_sdl2 \<Rightarrow> PlayerState_sdl2" where
  "push_remaining samplesRemaining s =
     (case stream s of
        None \<Rightarrow> s
      | Some st \<Rightarrow>
          let st1 = SDL_AudioStreamPut st (from_playHead s) (samplesRemaining * 4);
              available = SDL_AudioStreamAvailable st1
          in if 0 < sint available
             then s\<lparr>stream := Some (st1\<lparr>converted := []\<rparr>),
                    deviceQueue := deviceQueue s @ converted st1\<rparr>
             else s\<lparr>stream := Some st1\<rparr>)"

subsection \<open>Loading\<close>

text \<open>What the environment answers during a load: the assignment as above;
  \<^verbatim>\<open>SDL_OpenAudioDevice\<close> returns the id of the device, 0 when it fails, and
  fills in the frequency and the channel count the device has;
  \<^verbatim>\<open>SDL_NewAudioStream\<close> gives a stream with its conversion or fails. A device
  is paused when it is opened, and its queue is empty.\<close>

record load_env_sdl2 =
  assign_sdl2 :: assign_result
  openDevice :: Uint32
  haveFreq :: c_int
  haveChannels :: c_int
  newStream :: "(sample list \<Rightarrow> byte list) option"

definition set_audio_data_sdl2 ::
  "load_env_sdl2 \<Rightarrow> sample list \<Rightarrow> c_int \<Rightarrow> c_int \<Rightarrow> PlayerState_sdl2 \<Rightarrow> PlayerState_sdl2" where
  "set_audio_data_sdl2 env buf chans rate s =
     (let s1 = s\<lparr>stream := None\<rparr>;
          s2 = (if deviceId s1 = 0 then s1 else s1\<lparr>deviceId := 0, deviceQueue := []\<rparr>)
      in case assign_sdl2 env of
           Threw left \<Rightarrow> s2\<lparr>audioBuffer := left\<rparr>
         | Assigned \<Rightarrow>
             let s3 = s2\<lparr>audioBuffer := buf, channels := chans, sampleRate := rate,
                         playHead := 0, isPlaying := False\<rparr>;
                 s4 = s3\<lparr>deviceId := openDevice env\<rparr>
             in if deviceId s4 = 0 then s4
                else
                  let s5 = s4\<lparr>devicePaused := True, deviceQueue := [],
                              deviceFreq := haveFreq env, deviceChannels := haveChannels env\<rparr>
                  in (case newStream env of
                        None \<Rightarrow> s5
                      | Some cv \<Rightarrow> s5\<lparr>stream := Some \<lparr>convert = cv, converted = []\<rparr>\<rparr>))"

subsection \<open>Transport\<close>

definition play_sdl2 :: "PlayerState_sdl2 \<Rightarrow> PlayerState_sdl2" where
  "play_sdl2 s =
     (if deviceId s = 0 \<or> audioBuffer s = [] then s
      else if isPlaying s then s
      else
        let s1 = s\<lparr>isPlaying := True, devicePaused := False\<rparr>;
            queued = SDL_GetQueuedAudioSize s1
        in if queued = 0 \<and> playHead s1 < buffer_size s1
           then push_remaining (buffer_size s1 - playHead s1) s1
           else s1)"

definition pause_audio_sdl2 :: "PlayerState_sdl2 \<Rightarrow> PlayerState_sdl2" where
  "pause_audio_sdl2 s =
     (if isPlaying s then s\<lparr>isPlaying := False, devicePaused := True\<rparr> else s)"

definition resume_audio_sdl2 :: "PlayerState_sdl2 \<Rightarrow> PlayerState_sdl2" where
  "resume_audio_sdl2 s = (if isPlaying s then s else play_sdl2 s)"

definition stop_sdl2 :: "PlayerState_sdl2 \<Rightarrow> PlayerState_sdl2" where
  "stop_sdl2 s =
     (if deviceId s = 0 then s
      else s\<lparr>deviceQueue := [], stream := map_option SDL_AudioStreamClear (stream s),
             isPlaying := False, playHead := 0\<rparr>)"

definition seek_sdl2 :: "real \<Rightarrow> PlayerState_sdl2 \<Rightarrow> fault + PlayerState_sdl2" where
  "seek_sdl2 time s =
     (if deviceId s = 0 \<or> audioBuffer s = [] then Inr s
      else
        case seek_index time s of
          Inl e \<Rightarrow> Inl e
        | Inr sampleIndex \<Rightarrow>
            let s1 = s\<lparr>playHead := sampleIndex\<rparr>;
                s2 = s1\<lparr>deviceQueue := [],
                        stream := map_option SDL_AudioStreamClear (stream s1)\<rparr>
            in if isPlaying s2
               then Inr (push_remaining (buffer_size s2 - playHead s2) s2)
               else Inr s2)"

text \<open>The product \<^verbatim>\<open>channels * sampleRate\<close> is a signed \<^verbatim>\<open>int\<close> product; the
  divisor \<^verbatim>\<open>sizeof(float) * deviceChannels * deviceFreq\<close> is a \<^verbatim>\<open>size_t\<close>
  product and wraps.\<close>

definition get_current_time_sdl2 :: "PlayerState_sdl2 \<Rightarrow> fault + real" where
  "get_current_time_sdl2 s =
     (if deviceId s = 0 \<or> audioBuffer s = [] then Inr 0
      else
        let queuedBytes = SDL_GetQueuedAudioSize s;
            divisor = 4 * deviceChannels s * deviceFreq s
        in if divisor = 0 then Inl NonFinite
           else
             let queuedSeconds = real (unat queuedBytes) / real (unat divisor);
                 product = sint (channels s) * sint (sampleRate s)
             in if product < - (2 ^ 31) \<or> 2 ^ 31 \<le> product then Inl SignedOverflow
                else if product = 0 then Inl NonFinite
                else
                  let totalDuration = real (unat (buffer_size s)) / real_of_int product;
                      currentTime = totalDuration - queuedSeconds;
                      currentTime = (if currentTime < 0 then 0 else currentTime);
                      currentTime = (if totalDuration < currentTime then totalDuration
                                     else currentTime)
                  in Inr currentTime)"

definition set_volume_sdl2 :: "real \<Rightarrow> PlayerState_sdl2 \<Rightarrow> PlayerState_sdl2" where
  "set_volume_sdl2 vol s = s\<lparr>volume := vol\<rparr>"


section \<open>Well-formed states and the quantities of the claims\<close>

text \<open>
  A loaded buffer with a valid format: the buffer is not empty, the channel count
  and the sample rate are positive, and the buffer has fewer than \<open>2 ^ 29\<close>
  samples, so that its size in bytes fits the \<^verbatim>\<open>int\<close> the SDL calls take.
\<close>

definition loaded :: "('st, 'x) PlayerState_scheme \<Rightarrow> bool" where
  "loaded s \<longleftrightarrow>
     audioBuffer s \<noteq> [] \<and> length (audioBuffer s) < 2 ^ 29 \<and>
     0 < sint (channels s) \<and> 0 < sint (sampleRate s)"

text \<open>For the SDL2 engine also: a device is open, the \<^verbatim>\<open>int\<close> product
  \<^verbatim>\<open>channels * sampleRate\<close> does not overflow, and the divisor of the device
  format is not zero.\<close>

definition loaded_sdl2 :: "PlayerState_sdl2 \<Rightarrow> bool" where
  "loaded_sdl2 s \<longleftrightarrow>
     loaded s \<and> sint (channels s) * sint (sampleRate s) < 2 ^ 31 \<and>
     0 < unat (4 * deviceChannels s * deviceFreq s) \<and> 0 < unat (deviceId s)"

text \<open>The invariant of the spec's AudioBuffer: a whole number of frames.\<close>

definition whole_frames :: "('st, 'x) PlayerState_scheme \<Rightarrow> bool" where
  "whole_frames s \<longleftrightarrow> length (audioBuffer s) mod nat (sint (channels s)) = 0"

text \<open>The \<^verbatim>\<open>float\<close> product \<^verbatim>\<open>time * g_state.sampleRate\<close> of \<^verbatim>\<open>seek\<close>, the frame
  a seek to \<open>t\<close> seconds aims at, which is that product truncated, and the total
  duration \<open>length / (channelCount * sampleRate)\<close> of the spec.\<close>

definition seek_product :: "real \<Rightarrow> ('st, 'x) PlayerState_scheme \<Rightarrow> real" where
  "seek_product t s = mul32 t (int_to_float (sampleRate s))"

definition target_frame :: "real \<Rightarrow> ('st, 'x) PlayerState_scheme \<Rightarrow> nat" where
  "target_frame t s = nat \<lfloor>seek_product t s\<rfloor>"

definition total_duration :: "('st, 'x) PlayerState_scheme \<Rightarrow> real" where
  "total_duration s =
     real (length (audioBuffer s)) / real_of_int (sint (channels s) * sint (sampleRate s))"

text \<open>
  The two conditions on the arithmetic of \<^verbatim>\<open>seek\<close>. The conversion
  \<^verbatim>\<open>(size_t)(time * sampleRate)\<close> is defined: the time is not negative and
  the \<^verbatim>\<open>float\<close> product is below \<open>2 ^ 32\<close>. And the \<^verbatim>\<open>size_t\<close> product of the
  frame and the channel count does not wrap around.
\<close>

definition index_defined :: "real \<Rightarrow> ('st, 'x) PlayerState_scheme \<Rightarrow> bool" where
  "index_defined t s \<longleftrightarrow> 0 \<le> t \<and> seek_product t s < 2 ^ 32"

definition index_exact :: "real \<Rightarrow> ('st, 'x) PlayerState_scheme \<Rightarrow> bool" where
  "index_exact t s \<longleftrightarrow> target_frame t s * nat (sint (channels s)) < 2 ^ 32"

text \<open>
  Every frame number of the buffer and the sample rate are below \<open>2 ^ 24\<close>, the
  range in which a \<^verbatim>\<open>float\<close> holds every whole number: there the \<^verbatim>\<open>float\<close>
  product of \<^verbatim>\<open>seek\<close> is off by less than one frame.
\<close>

definition exact_in_float :: "('st, 'x) PlayerState_scheme \<Rightarrow> bool" where
  "exact_in_float s \<longleftrightarrow>
     sint (sampleRate s) < 2 ^ 24 \<and>
     length (audioBuffer s) div nat (sint (channels s)) < 2 ^ 24"

text \<open>A time that aims inside the buffer, and the time at which the frame it
  aims at starts.\<close>

definition within_buffer :: "real \<Rightarrow> ('st, 'x) PlayerState_scheme \<Rightarrow> bool" where
  "within_buffer t s \<longleftrightarrow>
     0 \<le> t \<and> target_frame t s * nat (sint (channels s)) \<le> length (audioBuffer s)"

definition frame_start :: "real \<Rightarrow> ('st, 'x) PlayerState_scheme \<Rightarrow> real" where
  "frame_start t s = real (target_frame t s) / real_of_int (sint (sampleRate s))"

text \<open>The host's sequence \<^verbatim>\<open>seek(t); get_current_time()\<close>, with nothing consumed
  by the device in between.\<close>

definition time_after_seek :: "real \<Rightarrow> PlayerState_sdl3 \<Rightarrow> fault + real" where
  "time_after_seek t s = (case seek t s of Inl e \<Rightarrow> Inl e | Inr s' \<Rightarrow> get_current_time s')"

definition time_after_seek_sdl2 :: "real \<Rightarrow> PlayerState_sdl2 \<Rightarrow> fault + real" where
  "time_after_seek_sdl2 t s =
     (case seek_sdl2 t s of Inl e \<Rightarrow> Inl e | Inr s' \<Rightarrow> get_current_time_sdl2 s')"

text \<open>
  The stream's conversion of one segment \<open>seg\<close> of samples in the SDL2 engine: the
  bytes it delivers fit the \<^verbatim>\<open>int\<close> that \<^verbatim>\<open>SDL_AudioStreamAvailable\<close> returns;
  the seconds they last in the device's format, as \<^verbatim>\<open>get_current_time\<close>
  computes them; and the case that they last as long as the segment lasts in the
  source format.
\<close>

definition delivers_int :: "AudioStream_sdl2 \<Rightarrow> sample list \<Rightarrow> bool" where
  "delivers_int st seg \<longleftrightarrow> length (convert st seg) < 2 ^ 31"

definition queued_seconds :: "PlayerState_sdl2 \<Rightarrow> AudioStream_sdl2 \<Rightarrow> sample list \<Rightarrow> real" where
  "queued_seconds s st seg =
     real (length (convert st seg)) / real (unat (4 * deviceChannels s * deviceFreq s))"

definition keeps_duration :: "PlayerState_sdl2 \<Rightarrow> AudioStream_sdl2 \<Rightarrow> sample list \<Rightarrow> bool" where
  "keeps_duration s st seg \<longleftrightarrow>
     queued_seconds s st seg
       = real (length seg) / real_of_int (sint (channels s) * sint (sampleRate s))"

text \<open>
  Modelled from the spec: the pipeline drains in the background. In the SDL3 model
  the device consumes the \<open>k\<close> oldest pending samples; the engine's own state
  does not change.
\<close>

definition drain :: "nat \<Rightarrow> PlayerState_sdl3 \<Rightarrow> PlayerState_sdl3" where
  "drain k s =
     s\<lparr>stream := map_option (\<lambda>st. st\<lparr>queuedSamples := drop k (queuedSamples st)\<rparr>) (stream s)\<rparr>"

text \<open>The stream never holds more samples than the buffer has (said for buffers
  whose byte count fits 32 bits).\<close>

definition pending_bounded :: "PlayerState_sdl3 \<Rightarrow> bool" where
  "pending_bounded s =
     (case stream s of
        None \<Rightarrow> True
      | Some st \<Rightarrow>
          2 ^ 30 \<le> length (audioBuffer s) \<or>
          length (queuedSamples st) \<le> length (audioBuffer s))"

subsection \<open>Example states\<close>

text \<open>Eight samples, two channels, four frames a second: one second of audio. The
  example device takes the source format, and the example conversion gives four
  bytes for each sample.\<close>

definition demo_buffer :: "sample list" where
  "demo_buffer = [0, 1, 2, 3, 4, 5, 6, 7]"

definition ok_env :: load_env where
  "ok_env = \<lparr>assign = Assigned, createStream = True, bindStream = True\<rparr>"

definition demo_loaded :: PlayerState_sdl3 where
  "demo_loaded = set_audio_data ok_env demo_buffer 2 4 g_state"

definition demo_playing :: PlayerState_sdl3 where
  "demo_playing = play demo_loaded"

definition plain_convert :: "sample list \<Rightarrow> byte list" where
  "plain_convert xs = replicate (4 * length xs) 0"

definition ok_env_sdl2 :: load_env_sdl2 where
  "ok_env_sdl2 = \<lparr>assign_sdl2 = Assigned, openDevice = 2, haveFreq = 4, haveChannels = 2,
     newStream = Some plain_convert\<rparr>"

definition demo_loaded_sdl2 :: PlayerState_sdl2 where
  "demo_loaded_sdl2 = set_audio_data_sdl2 ok_env_sdl2 demo_buffer 2 4 g_state_sdl2"

definition demo_playing_sdl2 :: PlayerState_sdl2 where
  "demo_playing_sdl2 = play_sdl2 demo_loaded_sdl2"

text \<open>Five minutes of stereo silence at 48 kHz, loaded and paused.\<close>

definition long_track :: PlayerState_sdl3 where
  "long_track = set_audio_data ok_env (replicate 28800000 0) 2 48000 g_state"

definition long_track_sdl2 :: PlayerState_sdl2 where
  "long_track_sdl2 =
     set_audio_data_sdl2 \<lparr>assign_sdl2 = Assigned, openDevice = 2, haveFreq = 48000,
       haveChannels = 2, newStream = Some plain_convert\<rparr>
       (replicate 28800000 0) 2 48000 g_state_sdl2"

text \<open>The eight samples again, on a device that takes eight frames a second: the
  conversion gives two device frames, eight bytes a sample, for each source
  frame.\<close>

definition doubling_convert :: "sample list \<Rightarrow> byte list" where
  "doubling_convert xs = replicate (8 * length xs) 0"

definition demo_resampled_sdl2 :: PlayerState_sdl2 where
  "demo_resampled_sdl2 =
     play_sdl2 (set_audio_data_sdl2 \<lparr>assign_sdl2 = Assigned, openDevice = 2, haveFreq = 8,
       haveChannels = 2, newStream = Some doubling_convert\<rparr> demo_buffer 2 4 g_state_sdl2)"

text \<open>Twenty samples, two channels, ten frames a second, playing; and the
  \<^verbatim>\<open>float\<close> nearest to 0.7.\<close>

definition ten_frames :: PlayerState_sdl3 where
  "ten_frames = play (set_audio_data ok_env (replicate 20 0) 2 10 g_state)"

definition seven_tenths :: real where
  "seven_tenths = 11744051 / 16777216"

text \<open>Two loads of the eight samples that fail late: in the SDL3 engine the stream
  is created and \<^verbatim>\<open>SDL_BindAudioStream\<close> fails; in the SDL2 engine the device
  is opened and \<^verbatim>\<open>SDL_NewAudioStream\<close> fails.\<close>

definition bind_failed :: PlayerState_sdl3 where
  "bind_failed =
     set_audio_data \<lparr>assign = Assigned, createStream = True, bindStream = False\<rparr>
       demo_buffer 2 4 g_state"

definition stream_failed_sdl2 :: PlayerState_sdl2 where
  "stream_failed_sdl2 =
     set_audio_data_sdl2 \<lparr>assign_sdl2 = Assigned, openDevice = 2, haveFreq = 4,
       haveChannels = 2, newStream = None\<rparr> demo_buffer 2 4 g_state_sdl2"


section \<open>Arithmetic of the engine\<close>

subsection \<open>Words and the time formula of the SDL3 engine\<close>


lemma unat_of_sint: "0 \<le> sint (w :: 32 word) \<Longrightarrow> unat w = nat (sint w)"
proof -
  assume nonneg: "0 \<le> sint w"
  have "sint w < 2 ^ 32"
    using sint_lt [of w] by simp
  with nonneg have "take_bit 32 (sint w) = sint w"
    by (simp add: take_bit_int_eq_self)
  then have "uint w = sint w"
    using uint_sint [of w] by simp
  then show ?thesis
    by (simp add: unat_eq_nat_uint)
qed

lemma unat_size: "n < 2 ^ 32 \<Longrightarrow> unat (word_of_nat n :: 32 word) = n"
  by (simp add: unat_of_nat)

lemma unat_quarter:
  assumes "p < 2 ^ 30"
  shows "unat ((word_of_nat (4 * p) :: 32 word) div 4) = p"
proof -
  from assms have small: "4 * p < 2 ^ 32" by simp
  have "unat ((word_of_nat (4 * p) :: 32 word) div 4) = unat (word_of_nat (4 * p) :: 32 word) div unat (4 :: 32 word)"
    by (rule unat_div)
  also have "\<dots> = (4 * p) div 4"
    using unat_size [OF small] by (simp only: unat_numeral) simp
  also have "\<dots> = p" by simp
  finally show ?thesis .
qed

lemma unat_buffer_size: "length (audioBuffer s) < 2 ^ 32 \<Longrightarrow> unat (buffer_size s) = length (audioBuffer s)"
  by (simp add: buffer_size_def unat_of_nat)

text \<open>The sample index \<^verbatim>\<open>get_current_time\<close> computes, before it is clamped.\<close>

lemma index_unat:
  assumes len: "length (audioBuffer s) < 2 ^ 29"
    and pend: "length (queuedSamples st) \<le> length (audioBuffer s)"
  shows "unat (playHead s + (buffer_size s - playHead s - SDL_GetAudioStreamAvailable st div 4))
         = length (audioBuffer s) - length (queuedSamples st)"
proof -
  let ?q = "SDL_GetAudioStreamAvailable st div 4"
  from len pend have "length (queuedSamples st) < 2 ^ 30" by simp
  then have q: "unat ?q = length (queuedSamples st)"
    unfolding SDL_GetAudioStreamAvailable_def by (rule unat_quarter)
  from len have sz: "unat (buffer_size s) = length (audioBuffer s)"
    by (simp add: unat_buffer_size)
  from q sz pend have le: "?q \<le> buffer_size s"
    by (simp add: word_le_nat_alt)
  have "playHead s + (buffer_size s - playHead s - ?q) = buffer_size s - ?q"
    by simp
  then show ?thesis
    using unat_sub [OF le] q sz by simp
qed

lemma get_current_time_value:
  assumes ld: "loaded s" and st: "stream s = Some st"
    and pend: "length (queuedSamples st) \<le> length (audioBuffer s)"
  shows "get_current_time s =
           Inr (real ((length (audioBuffer s) - length (queuedSamples st)) div nat (sint (channels s)))
                / real_of_int (sint (sampleRate s)))"
proof -
  from ld have len: "length (audioBuffer s) < 2 ^ 29" and ne: "audioBuffer s \<noteq> []"
    and ch: "0 < sint (channels s)" and rate: "0 < sint (sampleRate s)"
    by (simp_all add: loaded_def)
  let ?i = "playHead s + (buffer_size s - playHead s - SDL_GetAudioStreamAvailable st div 4)"
  have i: "unat ?i = length (audioBuffer s) - length (queuedSamples st)"
    using len pend by (rule index_unat)
  from len have sz: "unat (buffer_size s) = length (audioBuffer s)"
    by (simp add: unat_buffer_size)
  from i sz have noclamp: "\<not> buffer_size s < ?i"
    by (simp add: word_less_nat_alt)
  from ch have ch0: "channels s \<noteq> 0" by auto
  from rate have rate0: "sampleRate s \<noteq> 0" by auto
  from ch have uch: "unat (channels s) = nat (sint (channels s))"
    by (simp add: unat_of_sint)
  have "unat (?i div channels s) = (length (audioBuffer s) - length (queuedSamples st)) div nat (sint (channels s))"
    by (simp only: unat_div i uch)
  then have "real (unat (?i div channels s)) = real ((length (audioBuffer s) - length (queuedSamples st)) div nat (sint (channels s)))"
    by (rule arg_cong)
  with st ne noclamp ch0 rate0 show ?thesis
    by (simp add: get_current_time_def Let_def)
qed


lemma clamped_index_le:
  assumes "length (audioBuffer s) < 2 ^ 32"
  shows "unat (if buffer_size s < i then buffer_size s else i) \<le> length (audioBuffer s)"
  using assms by (auto simp: unat_buffer_size word_less_nat_alt)

lemma real_div_le:
  fixes n c :: nat
  assumes "0 < c"
  shows "real (n div c) \<le> real n / real c"
proof -
  have "n div c * c \<le> n" by simp
  then have "real (n div c * c) \<le> real n"
    by (simp only: of_nat_le_iff)
  then have "real (n div c) * real c \<le> real n" by simp
  with assms show ?thesis
    by (simp add: pos_le_divide_eq)
qed

lemma frames_le_duration:
  fixes n N c :: nat and r :: real
  assumes "n \<le> N" "0 < c" "0 < r"
  shows "real (n div c) / r \<le> real N / (real c * r)"
proof -
  have "real (n div c) \<le> real n / real c"
    using assms by (simp add: real_div_le)
  also have "\<dots> \<le> real N / real c"
    using assms by (simp add: divide_right_mono)
  finally have "real (n div c) \<le> real N / real c" .
  then have "real (n div c) / r \<le> real N / real c / r"
    using assms by (intro divide_right_mono) simp_all
  then show ?thesis by (simp add: divide_divide_eq_left)
qed

lemma get_current_time_clamped:
  assumes ld: "loaded s" and st: "stream s = Some st"
  shows "\<exists>a. get_current_time s = Inr a \<and> 0 \<le> a \<and>
           a \<le> real (length (audioBuffer s))
                 / (real (nat (sint (channels s))) * real_of_int (sint (sampleRate s)))"
proof -
  from ld have len: "length (audioBuffer s) < 2 ^ 32" and ne: "audioBuffer s \<noteq> []"
    and ch: "0 < sint (channels s)" and rate: "0 < sint (sampleRate s)"
    by (simp_all add: loaded_def)
  let ?i = "playHead s + (buffer_size s - playHead s - SDL_GetAudioStreamAvailable st div 4)"
  let ?j = "if buffer_size s < ?i then buffer_size s else ?i"
  let ?a = "real (unat (?j div channels s)) / real_of_int (sint (sampleRate s))"
  from ch have ch0: "channels s \<noteq> 0" by auto
  from rate have rate0: "sampleRate s \<noteq> 0" by auto
  from ch have uch: "unat (channels s) = nat (sint (channels s))"
    by (simp add: unat_of_sint)
  have val: "get_current_time s = Inr ?a"
    using st ne ch0 rate0 by (simp add: get_current_time_def Let_def)
  have j: "unat ?j \<le> length (audioBuffer s)"
    using len by (rule clamped_index_le)
  have "unat (?j div channels s) = unat ?j div nat (sint (channels s))"
    by (simp only: unat_div uch)
  then have "?a = real (unat ?j div nat (sint (channels s))) / real_of_int (sint (sampleRate s))"
    by (simp only:)
  also have "\<dots> \<le> real (length (audioBuffer s))
                 / (real (nat (sint (channels s))) * real_of_int (sint (sampleRate s)))"
    using j ch rate by (intro frames_le_duration) (simp_all del: of_int_sint)
  finally have up: "?a \<le> real (length (audioBuffer s))
                 / (real (nat (sint (channels s))) * real_of_int (sint (sampleRate s)))" .
  have "0 \<le> ?a" using rate by (simp del: of_int_sint of_nat_unat)
  with val up show ?thesis by blast
qed


lemma get_current_time_antitone:
  assumes ld: "loaded s" and st: "stream s = Some st"
    and drain: "length (queuedSamples st') \<le> length (queuedSamples st)"
    and pend: "length (queuedSamples st) \<le> length (audioBuffer s)"
  shows "\<exists>a b. get_current_time s = Inr a \<and>
           get_current_time (s\<lparr>stream := Some st'\<rparr>) = Inr b \<and> a \<le> b"
proof -
  let ?N = "length (audioBuffer s)" and ?c = "nat (sint (channels s))"
  let ?r = "real_of_int (sint (sampleRate s))"
  let ?a = "real ((?N - length (queuedSamples st)) div ?c) / ?r"
  let ?b = "real ((?N - length (queuedSamples st')) div ?c) / ?r"
  have a: "get_current_time s = Inr ?a"
    using ld st pend by (rule get_current_time_value)
  from ld have ld': "loaded (s\<lparr>stream := Some st'\<rparr>)"
    by (simp add: loaded_def)
  have "get_current_time (s\<lparr>stream := Some st'\<rparr>)
          = Inr (real ((length (audioBuffer (s\<lparr>stream := Some st'\<rparr>)) - length (queuedSamples st'))
                   div nat (sint (channels (s\<lparr>stream := Some st'\<rparr>))))
                 / real_of_int (sint (sampleRate (s\<lparr>stream := Some st'\<rparr>))))"
    using ld' drain pend by (intro get_current_time_value) simp_all
  then have b: "get_current_time (s\<lparr>stream := Some st'\<rparr>) = Inr ?b"
    by (simp del: of_int_sint)
  from ld have rate: "0 < ?r"
    by (simp add: loaded_def del: of_int_sint)
  from drain have "(?N - length (queuedSamples st)) div ?c \<le> (?N - length (queuedSamples st')) div ?c"
    by (intro div_le_mono) simp
  then have "real ((?N - length (queuedSamples st)) div ?c) \<le> real ((?N - length (queuedSamples st')) div ?c)"
    by (simp only: of_nat_le_iff)
  with rate have "?a \<le> ?b"
    by (intro divide_right_mono) simp_all
  with a b show ?thesis by blast
qed

subsection \<open>The time formula of the SDL2 engine\<close>

lemma pos_not_below: "0 < (p::int) \<Longrightarrow> \<not> p < - (2 ^ 31)"
  by simp

lemma clamp_is_max:
  fixes T Q :: real
  assumes "0 \<le> T" "0 \<le> Q"
  shows "(let cur = T - Q; cur = (if cur < 0 then 0 else cur)
          in if T < cur then T else cur) = max 0 (T - Q)"
  using assms by (auto simp: Let_def max_def)

lemma get_current_time_sdl2_value:
  assumes ld: "loaded_sdl2 s" and q: "length (deviceQueue s) < 2 ^ 32"
  shows "get_current_time_sdl2 s =
           Inr (max 0 (real (length (audioBuffer s))
                         / real_of_int (sint (channels s) * sint (sampleRate s))
                       - real (length (deviceQueue s))
                         / real (unat (4 * deviceChannels s * deviceFreq s))))"
proof -
  from ld have len: "length (audioBuffer s) < 2 ^ 32" and ne: "audioBuffer s \<noteq> []"
    and ch: "0 < sint (channels s)" and rate: "0 < sint (sampleRate s)"
    and prod: "sint (channels s) * sint (sampleRate s) < 2 ^ 31"
    and dv: "0 < unat (4 * deviceChannels s * deviceFreq s)" and dev: "deviceId s \<noteq> 0"
    by (auto simp: loaded_sdl2_def loaded_def)
  let ?T = "real (length (audioBuffer s)) / real_of_int (sint (channels s) * sint (sampleRate s))"
  let ?Q = "real (length (deviceQueue s)) / real (unat (4 * deviceChannels s * deviceFreq s))"
  from ch rate have pos: "0 < sint (channels s) * sint (sampleRate s)" by simp
  then have nlow: "\<not> sint (channels s) * sint (sampleRate s) < - (2 ^ 31)"
    by (rule pos_not_below)
  from pos have T: "0 \<le> ?T" by (simp del: of_int_sint of_int_mult)
  have Q: "0 \<le> ?Q" by (simp del: of_nat_unat)
  from dv have dv0: "4 * deviceChannels s * deviceFreq s \<noteq> 0"
    by (auto simp: unat_gt_0)
  have uq: "unat (SDL_GetQueuedAudioSize s) = length (deviceQueue s)"
    using q by (simp add: SDL_GetQueuedAudioSize_def unat_of_nat)
  have usz: "unat (buffer_size s) = length (audioBuffer s)"
    using len by (rule unat_buffer_size)
  have "get_current_time_sdl2 s =
          Inr (let cur = ?T - ?Q; cur = (if cur < 0 then 0 else cur)
               in if ?T < cur then ?T else cur)"
    using dev ne dv0 prod ch rate nlow
    by (simp add: get_current_time_sdl2_def Let_def uq usz del: of_nat_unat of_int_sint of_int_mult)
  also have "(let cur = ?T - ?Q; cur = (if cur < 0 then 0 else cur)
               in if ?T < cur then ?T else cur) = max 0 (?T - ?Q)"
    using T Q by (rule clamp_is_max)
  finally show ?thesis .
qed


subsection \<open>Rounding to binary32\<close>

text \<open>Rounding to nearest stays between the whole numbers around \<open>x\<close>, keeps a
  whole number below \<open>2 ^ 24\<close>, and keeps the sign and the threshold \<open>2 ^ 24\<close>.\<close>

lemma round_half_even_bounds:
  "\<lfloor>y\<rfloor> \<le> round_half_even y" "round_half_even y \<le> \<lceil>y\<rceil>"
proof -
  show "\<lfloor>y\<rfloor> \<le> round_half_even y"
    by (simp add: round_half_even_def Let_def)
  have "\<lfloor>y\<rfloor> + 1 \<le> \<lceil>y\<rceil>" if "0 < y - of_int \<lfloor>y\<rfloor>"
    using that by linarith
  moreover have "\<lfloor>y\<rfloor> \<le> \<lceil>y\<rceil>" by linarith
  ultimately show "round_half_even y \<le> \<lceil>y\<rceil>"
    by (auto simp: round_half_even_def Let_def)
qed

lemma exponent2_small:
  assumes "0 < x" "x < 2 ^ 24"
  shows "exponent2 x \<le> 23"
proof (cases "1 \<le> x")
  case True
  from assms have "\<lfloor>x\<rfloor> < 2 ^ nat 24"
    by (simp add: floor_less_iff)
  then have "bitlen \<lfloor>x\<rfloor> \<le> 24"
    by (simp add: bitlen_le_iff_power)
  with True show ?thesis by (simp add: exponent2_def)
next
  case False
  have "0 \<le> bitlen (\<lceil>1 / x\<rceil> - 1)" by (rule bitlen_nonneg)
  with False show ?thesis by (simp add: exponent2_def)
qed

text \<open>Below \<open>2 ^ 24\<close> the spacing is \<open>1 / 2 ^ k\<close>: every integer is a multiple of it.\<close>

lemma ulp32_small:
  assumes "0 < x" "x < 2 ^ 24"
  shows "\<exists>k. ulp32 x = 1 / 2 ^ k"
proof -
  from assms have "max (exponent2 x) (- 126) \<le> 23"
    using exponent2_small [of x] by simp
  then have "ulp32 x = 1 / 2 ^ nat (23 - max (exponent2 x) (- 126))"
    by (auto simp: ulp32_def Let_def)
  then show ?thesis by blast
qed

lemma round32_between:
  assumes "0 < x" "x < 2 ^ 24"
  shows "of_int \<lfloor>x\<rfloor> \<le> round32 x" "round32 x \<le> of_int \<lceil>x\<rceil>"
proof -
  from ulp32_small [OF assms] obtain k where u: "ulp32 x = 1 / 2 ^ k" by blast
  let ?y = "x * 2 ^ k"
  from assms have r: "round32 x = of_int (round_half_even ?y) / 2 ^ k"
    by (simp add: round32_def u)
  have "of_int (\<lfloor>x\<rfloor> * 2 ^ k) \<le> ?y"
    by simp
  then have "\<lfloor>x\<rfloor> * 2 ^ k \<le> \<lfloor>?y\<rfloor>"
    by (simp only: le_floor_iff)
  also have "\<dots> \<le> round_half_even ?y" by (rule round_half_even_bounds)
  finally have "real_of_int (\<lfloor>x\<rfloor> * 2 ^ k) \<le> of_int (round_half_even ?y)"
    by (simp only: of_int_le_iff)
  then have "of_int \<lfloor>x\<rfloor> * 2 ^ k \<le> real_of_int (round_half_even ?y)" by simp
  then show "of_int \<lfloor>x\<rfloor> \<le> round32 x"
    by (simp add: r pos_le_divide_eq)
  have "?y \<le> of_int (\<lceil>x\<rceil> * 2 ^ k)"
    by simp
  then have "\<lceil>?y\<rceil> \<le> \<lceil>x\<rceil> * 2 ^ k"
    by (simp only: ceiling_le_iff)
  moreover have "round_half_even ?y \<le> \<lceil>?y\<rceil>" by (rule round_half_even_bounds)
  ultimately have "round_half_even ?y \<le> \<lceil>x\<rceil> * 2 ^ k" by (rule order_trans [rotated])
  then have "real_of_int (round_half_even ?y) \<le> of_int (\<lceil>x\<rceil> * 2 ^ k)"
    by (simp only: of_int_le_iff)
  then have "real_of_int (round_half_even ?y) \<le> of_int \<lceil>x\<rceil> * 2 ^ k" by simp
  then show "round32 x \<le> of_int \<lceil>x\<rceil>"
    by (simp add: r pos_divide_le_eq)
qed

lemma round32_int:
  assumes "0 \<le> n" "n < 2 ^ 24"
  shows "round32 (of_int n) = of_int n"
proof (cases "n = 0")
  case True
  then show ?thesis by (simp add: round32_def)
next
  case False
  with assms have "0 < real_of_int n" "real_of_int n < 2 ^ 24" by simp_all
  from round32_between [OF this] show ?thesis by simp
qed

lemma ulp32_pos: "0 < ulp32 x"
  by (simp add: ulp32_def Let_def)

lemma round32_nonneg:
  assumes "0 \<le> x"
  shows "0 \<le> round32 x"
proof (cases "x = 0")
  case True
  then show ?thesis by (simp add: round32_def)
next
  case False
  with assms have x: "0 < x" by simp
  have "0 \<le> x / ulp32 x"
    using x ulp32_pos [of x] by simp
  then have "0 \<le> \<lfloor>x / ulp32 x\<rfloor>" by simp
  also have "\<dots> \<le> round_half_even (x / ulp32 x)" by (rule round_half_even_bounds)
  finally have "0 \<le> real_of_int (round_half_even (x / ulp32 x))" by simp
  with x ulp32_pos [of x] show ?thesis
    by (simp add: round32_def)
qed

lemma round32_large:
  assumes "2 ^ 24 \<le> x"
  shows "2 ^ 24 \<le> round32 x"
proof -
  from assms have x1: "1 \<le> x" and x0: "0 < x" by simp_all
  have fl: "2 ^ 24 \<le> \<lfloor>x\<rfloor>"
    using assms by (simp add: le_floor_iff)
  then have pos: "0 < \<lfloor>x\<rfloor>" by simp
  let ?b = "bitlen \<lfloor>x\<rfloor>"
  from fl have "25 \<le> ?b"
    by (simp add: bitlen_ge_iff_power)
  then have e: "exponent2 x = ?b - 1" and e24: "24 \<le> ?b - 1"
    using x1 by (simp_all add: exponent2_def)
  let ?j = "nat (?b - 1 - 23)"
  from e e24 have u: "ulp32 x = 2 ^ ?j"
    by (simp add: ulp32_def Let_def)
  from bitlen_bounds [OF pos] have "2 ^ nat (?b - 1) \<le> \<lfloor>x\<rfloor>" by simp
  then have "real_of_int (2 ^ nat (?b - 1)) \<le> of_int \<lfloor>x\<rfloor>"
    by (simp only: of_int_le_iff)
  also have "\<dots> \<le> x" by simp
  finally have low: "2 ^ nat (?b - 1) \<le> x" by simp
  from e24 have split: "nat (?b - 1) = 23 + ?j" by simp
  have "(2 :: real) ^ nat (?b - 1) = 2 ^ 23 * 2 ^ ?j"
    by (simp only: split power_add)
  with low have "2 ^ 23 * 2 ^ ?j \<le> x" by simp
  then have "2 ^ 23 \<le> x / 2 ^ ?j"
    by (simp add: pos_le_divide_eq)
  then have "real_of_int (2 ^ 23) \<le> x / 2 ^ ?j" by simp
  then have "2 ^ 23 \<le> \<lfloor>x / 2 ^ ?j\<rfloor>"
    by (simp only: le_floor_iff)
  also have "\<dots> \<le> round_half_even (x / 2 ^ ?j)" by (rule round_half_even_bounds)
  finally have "real_of_int (2 ^ 23) \<le> of_int (round_half_even (x / 2 ^ ?j))"
    by (simp only: of_int_le_iff)
  then have "2 ^ 23 \<le> real_of_int (round_half_even (x / 2 ^ ?j))" by simp
  then have "2 ^ ?j * 2 ^ 23 \<le> 2 ^ ?j * real_of_int (round_half_even (x / 2 ^ ?j))"
    by (intro mult_left_mono) simp_all
  moreover have "(2 :: real) ^ 24 \<le> 2 ^ ?j * 2 ^ 23"
  proof -
    from e24 have "1 \<le> ?j" by simp
    then have "(2 :: real) ^ 1 \<le> 2 ^ ?j" by (intro power_increasing) simp_all
    then show ?thesis by simp
  qed
  ultimately have "2 ^ 24 \<le> 2 ^ ?j * real_of_int (round_half_even (x / 2 ^ ?j))"
    by (rule order_trans [rotated])
  with x0 show ?thesis
    by (simp add: round32_def u)
qed

lemma round32_above_nat:
  assumes k: "k < 2 ^ 24" and le: "real k \<le> x"
  shows "real k \<le> round32 x"
proof (cases "x < 2 ^ 24")
  case small: True
  show ?thesis
  proof (cases "x = 0")
    case True
    with le show ?thesis by (simp add: round32_def)
  next
    case False
    with le have "0 < x" by (smt (verit) of_nat_0_le_iff)
    from round32_between(1) [OF this small] have "of_int \<lfloor>x\<rfloor> \<le> round32 x" .
    moreover from le have "real_of_int (int k) \<le> x" by simp
    then have "int k \<le> \<lfloor>x\<rfloor>" by (simp only: le_floor_iff)
    then have "real_of_int (int k) \<le> of_int \<lfloor>x\<rfloor>" by (simp only: of_int_le_iff)
    ultimately show ?thesis by simp
  qed
next
  case False
  then have "2 ^ 24 \<le> x" by simp
  then have "2 ^ 24 \<le> round32 x" by (rule round32_large)
  moreover from k have "real k < 2 ^ 24" by (simp add: of_nat_less_numeral_power_cancel_iff)
  ultimately show ?thesis by simp
qed

text \<open>Truncated, a rounded product below \<open>2 ^ 24\<close> is less than 1 away from the
  exact product.\<close>

lemma round32_near:
  assumes x0: "0 \<le> x" and small: "round32 x < 2 ^ 24"
  shows "\<bar>real_of_int \<lfloor>round32 x\<rfloor> - x\<bar> < 1"
proof (cases "x = 0")
  case True
  then show ?thesis by (simp add: round32_def)
next
  case False
  with x0 have pos: "0 < x" by simp
  have lt: "x < 2 ^ 24"
  proof (rule ccontr)
    assume "\<not> x < 2 ^ 24"
    then have "2 ^ 24 \<le> x" by simp
    then have "2 ^ 24 \<le> round32 x" by (rule round32_large)
    with small show False by simp
  qed
  from round32_between [OF pos lt]
  have lo: "of_int \<lfloor>x\<rfloor> \<le> round32 x" and hi: "round32 x \<le> of_int \<lceil>x\<rceil>" .
  from lo have "\<lfloor>x\<rfloor> \<le> \<lfloor>round32 x\<rfloor>" by (simp only: le_floor_iff)
  then have a: "real_of_int \<lfloor>x\<rfloor> \<le> of_int \<lfloor>round32 x\<rfloor>" by (simp only: of_int_le_iff)
  have b: "real_of_int \<lfloor>round32 x\<rfloor> \<le> round32 x" by simp
  have c: "x - 1 < of_int \<lfloor>x\<rfloor>" "real_of_int \<lceil>x\<rceil> < x + 1" by linarith+
  from a b c hi show ?thesis by linarith
qed

lemma int_to_float_exact:
  assumes "0 \<le> sint i" "sint i < 2 ^ 24"
  shows "int_to_float i = real_of_int (sint i)"
  unfolding int_to_float_def using assms by (rule round32_int)

lemma seek_product_nonneg:
  assumes ld: "loaded s" and t: "0 \<le> t"
  shows "0 \<le> seek_product t s"
proof -
  from ld have "0 \<le> real_of_int (sint (sampleRate s))"
    by (simp add: loaded_def del: of_int_sint)
  then have "0 \<le> int_to_float (sampleRate s)"
    unfolding int_to_float_def by (rule round32_nonneg)
  with t have "0 \<le> t * int_to_float (sampleRate s)" by simp
  then show ?thesis
    unfolding seek_product_def mul32_def by (rule round32_nonneg)
qed

subsection \<open>The index and the refill of seek\<close>

lemma float_to_size_t_value:
  assumes "0 \<le> x" "x < 2 ^ 32"
  shows "float_to_size_t x = Inr (word_of_int \<lfloor>x\<rfloor>)"
    and "unat (word_of_int \<lfloor>x\<rfloor> :: 32 word) = nat \<lfloor>x\<rfloor>"
proof -
  from assms show "float_to_size_t x = Inr (word_of_int \<lfloor>x\<rfloor>)"
    by (simp add: float_to_size_t_def)
  from assms have "0 \<le> \<lfloor>x\<rfloor>" "\<lfloor>x\<rfloor> < 2 ^ 32"
    by (simp_all add: floor_less_iff)
  then have "take_bit 32 \<lfloor>x\<rfloor> = \<lfloor>x\<rfloor>"
    by (simp add: take_bit_int_eq_self)
  then show "unat (word_of_int \<lfloor>x\<rfloor> :: 32 word) = nat \<lfloor>x\<rfloor>"
    by (simp add: unat_eq_nat_uint uint_word_of_int_eq)
qed

lemma seek_index_value:
  assumes ld: "loaded s" and t: "0 \<le> t"
    and conv: "seek_product t s < 2 ^ 32"
  shows "\<exists>i. seek_index t s = Inr i \<and>
           unat i = (let w = (target_frame t s * nat (sint (channels s))) mod 2 ^ 32;
                         a = w - w mod nat (sint (channels s))
                     in if length (audioBuffer s) \<le> a then length (audioBuffer s) else a)"
proof -
  let ?x = "seek_product t s"
  let ?n = "word_of_int \<lfloor>?x\<rfloor> :: 32 word"
  let ?m = "?n * channels s"
  let ?a = "?m - ?m mod channels s"
  let ?c = "nat (sint (channels s))"
  from ld have len: "length (audioBuffer s) < 2 ^ 32"
    and ch: "0 < sint (channels s)"
    by (simp_all add: loaded_def)
  from ld t have x0: "0 \<le> ?x" by (rule seek_product_nonneg)
  from ch have ch0: "channels s \<noteq> 0" by auto
  from ch have uch: "unat (channels s) = ?c"
    by (simp add: unat_of_sint)
  have n: "float_to_size_t ?x = Inr ?n" and un: "unat ?n = target_frame t s"
    using float_to_size_t_value [OF x0 conv] by (simp_all add: target_frame_def)
  have um: "unat ?m = (target_frame t s * ?c) mod 2 ^ 32"
    by (simp add: unat_word_ariths un uch)
  have "?m mod channels s \<le> ?m"
    by (simp add: word_le_nat_alt unat_mod)
  then have ua: "unat ?a = unat ?m - unat ?m mod ?c"
    by (simp add: unat_sub unat_mod uch)
  have usz: "unat (buffer_size s) = length (audioBuffer s)"
    using len by (rule unat_buffer_size)
  have val: "seek_index t s = Inr (if buffer_size s \<le> ?a then buffer_size s else ?a)"
    using n ch0 by (simp add: seek_index_def seek_product_def [symmetric] Let_def)
  have "unat (if buffer_size s \<le> ?a then buffer_size s else ?a)
          = (if length (audioBuffer s) \<le> unat ?a then length (audioBuffer s) else unat ?a)"
    by (simp add: word_le_nat_alt usz)
  with val show ?thesis
    by (simp only: ua um Let_def) blast
qed


lemma seek_index_aligned:
  assumes ld: "loaded s" and t: "0 \<le> t"
    and conv: "seek_product t s < 2 ^ 32"
    and whole: "length (audioBuffer s) mod nat (sint (channels s)) = 0"
  shows "\<exists>i. seek_index t s = Inr i \<and> unat i mod nat (sint (channels s)) = 0 \<and>
           unat i \<le> length (audioBuffer s)"
proof -
  let ?c = "nat (sint (channels s))"
  define w where "w = (target_frame t s * ?c) mod 2 ^ 32"
  from seek_index_value [OF ld t conv] obtain i where i: "seek_index t s = Inr i"
    and ui: "unat i = (if length (audioBuffer s) \<le> w - w mod ?c then length (audioBuffer s)
                       else w - w mod ?c)"
    unfolding Let_def w_def by blast
  have "(w - w mod ?c) mod ?c = 0"
    by (simp add: minus_mod_eq_mult_div)
  with whole ui have "unat i mod ?c = 0" by simp
  moreover from ui have "unat i \<le> length (audioBuffer s)" by simp
  ultimately show ?thesis using i by (intro exI [of _ i] conjI)
qed

lemma nat_le_mult: "0 < (c::nat) \<Longrightarrow> m \<le> m * c"
  by (cases c) simp_all

lemma int_bound: "nat (k::int) < 2 ^ 32 \<Longrightarrow> k < 2 ^ 32"
  by simp

lemma floor_nat_bound:
  fixes x :: real
  assumes "nat \<lfloor>x\<rfloor> < 2 ^ 32"
  shows "x < 2 ^ 32"
proof -
  from assms have "\<lfloor>x\<rfloor> < 2 ^ 32" by (rule int_bound)
  then show ?thesis by simp
qed

lemma int_small: "nat (k::int) < 2 ^ 24 \<Longrightarrow> k < 2 ^ 24"
  by simp

lemma floor_nat_small:
  fixes x :: real
  assumes "nat \<lfloor>x\<rfloor> < 2 ^ 24"
  shows "x < 2 ^ 24"
proof -
  from assms have "\<lfloor>x\<rfloor> < 2 ^ 24" by (rule int_small)
  then show ?thesis by simp
qed

lemma target_frame_fits:
  assumes ld: "loaded s" and t: "0 \<le> t"
    and fits: "target_frame t s * nat (sint (channels s)) < 2 ^ 32"
  shows "seek_product t s < 2 ^ 32"
proof -
  from ld have ch: "0 < nat (sint (channels s))" by (simp add: loaded_def)
  then have "target_frame t s \<le> target_frame t s * nat (sint (channels s))"
    by (rule nat_le_mult)
  then have "target_frame t s < 2 ^ 32"
    using fits by (rule le_less_trans)
  then show ?thesis
    unfolding target_frame_def by (rule floor_nat_bound)
qed

lemma seek_index_exact:
  assumes ld: "loaded s" and t: "0 \<le> t"
    and fits: "target_frame t s * nat (sint (channels s)) < 2 ^ 32"
  shows "\<exists>i. seek_index t s = Inr i \<and>
           unat i = min (target_frame t s * nat (sint (channels s))) (length (audioBuffer s))"
proof -
  let ?c = "nat (sint (channels s))"
  have conv: "seek_product t s < 2 ^ 32"
    using ld t fits by (rule target_frame_fits)
  from fits have w: "(target_frame t s * ?c) mod 2 ^ 32 = target_frame t s * ?c"
    by (rule mod_less)
  have al: "target_frame t s * ?c - target_frame t s * ?c mod ?c = target_frame t s * ?c"
    by simp
  from seek_index_value [OF ld t conv] obtain i where i: "seek_index t s = Inr i"
    and ui: "unat i = (if length (audioBuffer s) \<le> target_frame t s * ?c
                       then length (audioBuffer s) else target_frame t s * ?c)"
    unfolding Let_def w al by blast
  from ui have "unat i = min (target_frame t s * ?c) (length (audioBuffer s))"
    by (simp add: min_def)
  with i show ?thesis by blast
qed

lemma sint_of_small:
  assumes "unat (w :: 32 word) < 2 ^ 31"
  shows "sint w = int (unat w)"
proof -
  have u: "int (unat w) = uint w"
    by simp
  from assms have "int (unat w) < int (2 ^ 31)"
    by (simp only: of_nat_less_iff)
  then have up: "uint w < 2 ^ 31"
    by (simp only: u) simp
  have "- (2 ^ 31) \<le> (0 :: int)" by simp
  also have "0 \<le> uint w" by simp
  finally have low: "- (2 ^ 31) \<le> uint w" .
  from low up have "signed_take_bit 31 (uint w) = uint w"
    by (rule signed_take_bit_int_eq_self)
  then have "sint w = uint w"
    by (simp add: sint_uint)
  with u show ?thesis by simp
qed

text \<open>The byte count \<^verbatim>\<open>samplesRemaining * sizeof(float)\<close> that is passed as \<^verbatim>\<open>int\<close>.\<close>

lemma remaining_bytes:
  assumes len: "length (audioBuffer s) < 2 ^ 29" and le: "unat i \<le> length (audioBuffer s)"
  shows "sint ((buffer_size s - i) * 4) = int (4 * (length (audioBuffer s) - unat i))"
proof -
  from len have usz: "unat (buffer_size s) = length (audioBuffer s)"
    by (simp add: unat_buffer_size)
  with le have "i \<le> buffer_size s"
    by (simp add: word_le_nat_alt)
  then have ur: "unat (buffer_size s - i) = length (audioBuffer s) - unat i"
    by (simp add: unat_sub usz)
  have "unat (buffer_size s - i) * unat (4 :: 32 word) < 2 ^ LENGTH(32)"
    using len by (simp add: ur)
  then have "unat ((buffer_size s - i) * 4) = unat (buffer_size s - i) * unat (4 :: 32 word)"
    by (rule unat_mult_lem [THEN iffD1])
  then have ub: "unat ((buffer_size s - i) * 4) = 4 * (length (audioBuffer s) - unat i)"
    by (simp add: ur)
  then have "unat ((buffer_size s - i) * 4) < 2 ^ 31"
    using len by simp
  then have "sint ((buffer_size s - i) * 4) = int (unat ((buffer_size s - i) * 4))"
    by (rule sint_of_small)
  with ub show ?thesis by simp
qed


lemma put_remaining_length:
  assumes len: "length (audioBuffer s) < 2 ^ 29" and le: "unat i \<le> length (audioBuffer s)"
  shows "queuedSamples (SDL_PutAudioStreamData (SDL_ClearAudioStream st)
           (drop (unat i) (audioBuffer s)) ((buffer_size s - i) * 4))
         = drop (unat i) (audioBuffer s)"
proof -
  have b: "sint ((buffer_size s - i) * 4) = int (4 * (length (audioBuffer s) - unat i))"
    using len le by (rule remaining_bytes)
  then have "nat (sint ((buffer_size s - i) * 4)) div 4 = length (audioBuffer s) - unat i"
    by simp
  moreover from b have "\<not> sint ((buffer_size s - i) * 4) < 0"
    by simp
  ultimately show ?thesis
    by (simp add: SDL_PutAudioStreamData_def SDL_ClearAudioStream_def)
qed

lemma seek_playing:
  assumes ld: "loaded s" and st: "stream s = Some st" and pl: "isPlaying s"
    and idx: "seek_index t s = Inr i" and le: "unat i \<le> length (audioBuffer s)"
  shows "\<exists>st'. seek t s = Inr (s\<lparr>playHead := i, stream := Some st'\<rparr>) \<and>
           queuedSamples st' = drop (unat i) (audioBuffer s)"
proof -
  from ld have len: "length (audioBuffer s) < 2 ^ 29" and ne: "audioBuffer s \<noteq> []"
    by (simp_all add: loaded_def)
  let ?put = "SDL_PutAudioStreamData (SDL_ClearAudioStream st)
                (drop (unat i) (audioBuffer s)) ((buffer_size s - i) * 4)"
  have put: "queuedSamples ?put = drop (unat i) (audioBuffer s)"
    using len le by (rule put_remaining_length)
  show ?thesis
  proof (cases "0 < buffer_size s - i")
    case True
    with st ne pl idx have "seek t s = Inr (s\<lparr>playHead := i, stream := Some ?put\<rparr>)"
      by (simp add: seek_def Let_def buffer_size_def from_playHead_def)
    with put show ?thesis by blast
  next
    case False
    then have z: "buffer_size s - i = 0"
      by (simp add: word_neq_0_conv [symmetric])
    then have "unat (buffer_size s) = unat i" by simp
    with len have "length (audioBuffer s) = unat i"
      by (simp add: unat_buffer_size)
    then have e: "queuedSamples (SDL_ClearAudioStream st) = drop (unat i) (audioBuffer s)"
      by (simp add: SDL_ClearAudioStream_def)
    from st ne pl idx False
    have "seek t s = Inr (s\<lparr>playHead := i, stream := Some (SDL_ClearAudioStream st)\<rparr>)"
      by (simp add: seek_def Let_def buffer_size_def)
    with e show ?thesis by blast
  qed
qed

lemma seek_then_time:
  assumes ld: "loaded s" and st: "stream s = Some st" and pl: "isPlaying s"
    and idx: "seek_index t s = Inr i" and le: "unat i \<le> length (audioBuffer s)"
  shows "\<exists>s'. seek t s = Inr s' \<and> playHead s' = i \<and>
           get_current_time s' =
             Inr (real (unat i div nat (sint (channels s))) / real_of_int (sint (sampleRate s)))"
proof -
  from seek_playing [OF ld st pl idx le] obtain st'
    where sk: "seek t s = Inr (s\<lparr>playHead := i, stream := Some st'\<rparr>)"
      and q: "queuedSamples st' = drop (unat i) (audioBuffer s)"
    by blast
  let ?s' = "s\<lparr>playHead := i, stream := Some st'\<rparr>"
  from ld have ld': "loaded ?s'" by (simp add: loaded_def)
  have "get_current_time ?s' =
          Inr (real ((length (audioBuffer ?s') - length (queuedSamples st')) div nat (sint (channels ?s')))
               / real_of_int (sint (sampleRate ?s')))"
    using ld' by (rule get_current_time_value) (simp_all add: q)
  moreover have "length (audioBuffer ?s') - length (queuedSamples st') = unat i"
    using le by (simp add: q)
  ultimately have "get_current_time ?s' =
          Inr (real (unat i div nat (sint (channels s))) / real_of_int (sint (sampleRate s)))"
    by (simp del: of_int_sint)
  with sk show ?thesis by (intro exI [of _ ?s']) simp
qed


lemma available_sign:
  assumes "length (converted st) < 2 ^ 31"
  shows "0 < sint (SDL_AudioStreamAvailable st) \<longleftrightarrow> converted st \<noteq> []"
proof -
  from assms have "length (converted st) < 2 ^ 32" by simp
  then have u: "unat (SDL_AudioStreamAvailable st) = length (converted st)"
    by (simp add: SDL_AudioStreamAvailable_def unat_of_nat)
  with assms have "unat (SDL_AudioStreamAvailable st) < 2 ^ 31" by simp
  then have "sint (SDL_AudioStreamAvailable st) = int (unat (SDL_AudioStreamAvailable st))"
    by (rule sint_of_small)
  with u show ?thesis by simp
qed

lemma push_remaining_queue:
  assumes len: "length (audioBuffer s) < 2 ^ 29" and le: "unat (playHead s) \<le> length (audioBuffer s)"
    and st: "stream s = Some st" and empty: "converted st = []"
    and small: "length (convert st (from_playHead s)) < 2 ^ 31"
  shows "deviceQueue (push_remaining (buffer_size s - playHead s) s)
           = deviceQueue s @ convert st (from_playHead s)"
    and "push_remaining (buffer_size s - playHead s) s
           = s\<lparr>stream := stream (push_remaining (buffer_size s - playHead s) s),
                deviceQueue := deviceQueue (push_remaining (buffer_size s - playHead s) s)\<rparr>"
proof -
  let ?len = "(buffer_size s - playHead s) * 4"
  let ?st1 = "SDL_AudioStreamPut st (from_playHead s) ?len"
  have b: "sint ?len = int (4 * (length (audioBuffer s) - unat (playHead s)))"
    using len le by (rule remaining_bytes)
  then have n: "nat (sint ?len) div 4 = length (audioBuffer s) - unat (playHead s)"
    by simp
  from b have pos: "\<not> sint ?len < 0" by simp
  have c: "converted ?st1 = convert st (from_playHead s)"
    using pos n empty by (simp add: SDL_AudioStreamPut_def from_playHead_def)
  with small have "length (converted ?st1) < 2 ^ 31" by simp
  then have av: "0 < sint (SDL_AudioStreamAvailable ?st1) \<longleftrightarrow> converted ?st1 \<noteq> []"
    by (rule available_sign)
  show "deviceQueue (push_remaining (buffer_size s - playHead s) s)
           = deviceQueue s @ convert st (from_playHead s)"
    using st av c by (simp add: push_remaining_def Let_def)
  show "push_remaining (buffer_size s - playHead s) s
           = s\<lparr>stream := stream (push_remaining (buffer_size s - playHead s) s),
                deviceQueue := deviceQueue (push_remaining (buffer_size s - playHead s) s)\<rparr>"
    using st by (simp add: push_remaining_def Let_def)
qed

lemma seek_sdl2_playing:
  assumes ld: "loaded_sdl2 s" and st: "stream s = Some st" and pl: "isPlaying s"
    and idx: "seek_index t s = Inr i" and le: "unat i \<le> length (audioBuffer s)"
    and small: "length (convert st (drop (unat i) (audioBuffer s))) < 2 ^ 31"
  shows "\<exists>st' . seek_sdl2 t s =
           Inr (s\<lparr>playHead := i, stream := st',
                  deviceQueue := convert st (drop (unat i) (audioBuffer s))\<rparr>)"
proof -
  from ld have len: "length (audioBuffer s) < 2 ^ 29" and ne: "audioBuffer s \<noteq> []"
    and dev: "deviceId s \<noteq> 0"
    by (auto simp: loaded_sdl2_def loaded_def)
  let ?s2 = "s\<lparr>playHead := i, deviceQueue := [], stream := Some (SDL_AudioStreamClear st)\<rparr>"
  let ?p = "push_remaining (buffer_size ?s2 - playHead ?s2) ?s2"
  have sk: "seek_sdl2 t s = Inr ?p"
    using dev ne idx pl st by (simp add: seek_sdl2_def Let_def buffer_size_def)
  have cv: "convert (SDL_AudioStreamClear st) = convert st"
    and em: "converted (SDL_AudioStreamClear st) = []"
    by (simp_all add: SDL_AudioStreamClear_def)
  have q: "deviceQueue ?p = deviceQueue ?s2 @ convert (SDL_AudioStreamClear st) (from_playHead ?s2)"
    using len le small em
    by (intro push_remaining_queue(1) [where st = "SDL_AudioStreamClear st"])
      (simp_all add: cv from_playHead_def)
  have fr: "?p = ?s2\<lparr>stream := stream ?p, deviceQueue := deviceQueue ?p\<rparr>"
    using len le small em
    by (intro push_remaining_queue(2) [where st = "SDL_AudioStreamClear st"])
      (simp_all add: cv from_playHead_def)
  from q have "deviceQueue ?p = convert st (drop (unat i) (audioBuffer s))"
    by (simp add: cv from_playHead_def)
  with fr have "?p = s\<lparr>playHead := i, stream := stream ?p,
                  deviceQueue := convert st (drop (unat i) (audioBuffer s))\<rparr>"
    by simp
  with sk show ?thesis by metis
qed


lemma seek_sdl2_then_time:
  assumes ld: "loaded_sdl2 s" and st: "stream s = Some st" and pl: "isPlaying s"
    and idx: "seek_index t s = Inr i" and le: "unat i \<le> length (audioBuffer s)"
    and small: "delivers_int st (drop (unat i) (audioBuffer s))"
  shows "\<exists>s'. seek_sdl2 t s = Inr s' \<and> playHead s' = i \<and>
           get_current_time_sdl2 s' =
             Inr (max 0 (total_duration s - queued_seconds s st (drop (unat i) (audioBuffer s))))"
proof -
  let ?seg = "drop (unat i) (audioBuffer s)"
  let ?P = "real_of_int (sint (channels s) * sint (sampleRate s))"
  let ?D = "real (unat (4 * deviceChannels s * deviceFreq s))"
  from small have small: "length (convert st ?seg) < 2 ^ 31"
    by (simp add: delivers_int_def)
  from seek_sdl2_playing [OF ld st pl idx le small] obtain st'
    where sk: "seek_sdl2 t s = Inr (s\<lparr>playHead := i, stream := st', deviceQueue := convert st ?seg\<rparr>)"
    by blast
  let ?s' = "s\<lparr>playHead := i, stream := st', deviceQueue := convert st ?seg\<rparr>"
  from ld have ld': "loaded_sdl2 ?s'"
    by (simp add: loaded_sdl2_def loaded_def)
  from small have q: "length (deviceQueue ?s') < 2 ^ 32" by simp
  have "get_current_time_sdl2 ?s' =
          Inr (max 0 (real (length (audioBuffer ?s')) / real_of_int (sint (channels ?s') * sint (sampleRate ?s'))
                      - real (length (deviceQueue ?s')) / real (unat (4 * deviceChannels ?s' * deviceFreq ?s'))))"
    using ld' q by (rule get_current_time_sdl2_value)
  then have "get_current_time_sdl2 ?s' =
          Inr (max 0 (total_duration s - queued_seconds s st ?seg))"
    by (simp add: total_duration_def queued_seconds_def del: of_nat_unat of_int_sint of_int_mult)
  with sk show ?thesis by (intro exI [of _ ?s']) simp
qed

text \<open>When the bytes last as long as the segment, the difference is the time at
  which the segment starts.\<close>

lemma kept_duration_time:
  assumes ld: "loaded_sdl2 s" and le: "n \<le> length (audioBuffer s)"
    and keep: "keeps_duration s st (drop n (audioBuffer s))"
  shows "max 0 (total_duration s - queued_seconds s st (drop n (audioBuffer s)))
           = real n / real_of_int (sint (channels s) * sint (sampleRate s))"
proof -
  let ?P = "real_of_int (sint (channels s) * sint (sampleRate s))"
  from ld have pos: "0 < ?P"
    by (simp add: loaded_sdl2_def loaded_def del: of_int_sint)
  from keep have "queued_seconds s st (drop n (audioBuffer s))
      = real (length (audioBuffer s) - n) / ?P"
    by (simp only: keeps_duration_def length_drop)
  then have "total_duration s - queued_seconds s st (drop n (audioBuffer s))
      = real (length (audioBuffer s)) / ?P - real (length (audioBuffer s) - n) / ?P"
    by (simp only: total_duration_def)
  also have "\<dots> = real n / ?P"
    using le by (simp add: of_nat_diff diff_divide_distrib [symmetric] del: of_int_sint of_int_mult)
  finally have "total_duration s - queued_seconds s st (drop n (audioBuffer s)) = real n / ?P" .
  moreover have "0 \<le> real n / ?P"
    using pos by (simp del: of_int_sint of_int_mult)
  ultimately show ?thesis by (simp only: max_def if_True)
qed

text \<open>Where a \<^verbatim>\<open>float\<close> holds every frame number, the frame \<^verbatim>\<open>seek\<close> aims at
  is less than one frame away from \<open>t * sampleRate\<close>.\<close>

lemma target_frame_near:
  assumes ld: "loaded s" and w: "within_buffer t s" and ex: "exact_in_float s"
  shows "\<bar>real (target_frame t s) - t * real_of_int (sint (sampleRate s))\<bar> < 1"
proof -
  let ?r = "real_of_int (sint (sampleRate s))" and ?c = "nat (sint (channels s))"
  let ?x = "t * ?r"
  from ld have r: "0 < ?r" and r0: "0 \<le> sint (sampleRate s)" and c: "0 < ?c"
    by (simp_all add: loaded_def del: of_int_sint)
  from w have t: "0 \<le> t" and le: "target_frame t s * ?c \<le> length (audioBuffer s)"
    by (simp_all add: within_buffer_def)
  from ex have rs: "sint (sampleRate s) < 2 ^ 24"
    and fs: "length (audioBuffer s) div ?c < 2 ^ 24"
    by (simp_all add: exact_in_float_def)
  have p: "seek_product t s = round32 ?x"
    by (simp only: seek_product_def mul32_def int_to_float_exact [OF r0 rs])
  from t r have x0: "0 \<le> ?x" by (simp del: of_int_sint)
  then have p0: "0 \<le> round32 ?x" by (rule round32_nonneg)
  from le c have "target_frame t s \<le> length (audioBuffer s) div ?c"
    by (simp add: less_eq_div_iff_mult_less_eq)
  then have "target_frame t s < 2 ^ 24" using fs by (rule le_less_trans)
  then have "nat \<lfloor>round32 ?x\<rfloor> < 2 ^ 24"
    by (simp only: target_frame_def p)
  then have small: "round32 ?x < 2 ^ 24" by (rule floor_nat_small)
  from p0 have f: "real (target_frame t s) = real_of_int \<lfloor>round32 ?x\<rfloor>"
    by (simp add: target_frame_def p del: of_int_sint)
  from round32_near [OF x0 small] show ?thesis
    by (simp only: f)
qed


section \<open>The example states, evaluated\<close>

lemma demo_loaded_eq:
  "demo_loaded = \<lparr>stream = Some \<lparr>queuedSamples = [], gain = 1, boundToDevice = True\<rparr>,
     audioBuffer = demo_buffer, isPlaying = False, volume = 1, sampleRate = 4, channels = 2,
     playHead = 0, deviceId = 0, devicePaused = False\<rparr>"
  by (simp add: demo_loaded_def set_audio_data_def ok_env_def g_state_def)

lemma demo_playing_eq:
  "demo_playing = \<lparr>stream = Some \<lparr>queuedSamples = demo_buffer, gain = 1, boundToDevice = True\<rparr>,
     audioBuffer = demo_buffer, isPlaying = True, volume = 1, sampleRate = 4, channels = 2,
     playHead = 0, deviceId = 0, devicePaused = False\<rparr>"
  by (simp add: demo_playing_def demo_loaded_eq play_def Let_def buffer_size_def from_playHead_def
      SDL_GetAudioStreamAvailable_def SDL_PutAudioStreamData_def demo_buffer_def)

lemma demo_loaded_sdl2_eq:
  "demo_loaded_sdl2 = \<lparr>stream = Some \<lparr>convert = plain_convert, converted = []\<rparr>,
     audioBuffer = demo_buffer, isPlaying = False, volume = 1, sampleRate = 4, channels = 2,
     playHead = 0, deviceId = 2, devicePaused = True, deviceFreq = 4, deviceChannels = 2,
     deviceQueue = []\<rparr>"
  by (simp add: demo_loaded_sdl2_def set_audio_data_sdl2_def ok_env_sdl2_def g_state_sdl2_def)

lemma demo_playing_sdl2_eq:
  "demo_playing_sdl2 = \<lparr>stream = Some \<lparr>convert = plain_convert, converted = []\<rparr>,
     audioBuffer = demo_buffer, isPlaying = True, volume = 1, sampleRate = 4, channels = 2,
     playHead = 0, deviceId = 2, devicePaused = False, deviceFreq = 4, deviceChannels = 2,
     deviceQueue = replicate 32 0\<rparr>"
  by (simp add: demo_playing_sdl2_def demo_loaded_sdl2_eq play_sdl2_def Let_def buffer_size_def
      from_playHead_def SDL_GetQueuedAudioSize_def push_remaining_def SDL_AudioStreamPut_def
      SDL_AudioStreamAvailable_def demo_buffer_def plain_convert_def)

lemma long_track_eq:
  "long_track = \<lparr>stream = Some \<lparr>queuedSamples = [], gain = 1, boundToDevice = True\<rparr>,
     audioBuffer = replicate 28800000 0, isPlaying = False, volume = 1, sampleRate = 48000,
     channels = 2, playHead = 0, deviceId = 0, devicePaused = False\<rparr>"
  by (simp add: long_track_def set_audio_data_def ok_env_def g_state_def)

lemma long_track_sdl2_eq:
  "long_track_sdl2 = \<lparr>stream = Some \<lparr>convert = plain_convert, converted = []\<rparr>,
     audioBuffer = replicate 28800000 0, isPlaying = False, volume = 1, sampleRate = 48000,
     channels = 2, playHead = 0, deviceId = 2, devicePaused = True, deviceFreq = 48000,
     deviceChannels = 2, deviceQueue = []\<rparr>"
  by (simp add: long_track_sdl2_def set_audio_data_sdl2_def g_state_sdl2_def)

lemma demo_resampled_sdl2_eq:
  "demo_resampled_sdl2 = \<lparr>stream = Some \<lparr>convert = doubling_convert, converted = []\<rparr>,
     audioBuffer = demo_buffer, isPlaying = True, volume = 1, sampleRate = 4, channels = 2,
     playHead = 0, deviceId = 2, devicePaused = False, deviceFreq = 8, deviceChannels = 2,
     deviceQueue = replicate 64 0\<rparr>"
  by (simp add: demo_resampled_sdl2_def set_audio_data_sdl2_def g_state_sdl2_def play_sdl2_def
      Let_def buffer_size_def from_playHead_def SDL_GetQueuedAudioSize_def push_remaining_def
      SDL_AudioStreamPut_def SDL_AudioStreamAvailable_def demo_buffer_def doubling_convert_def)

lemma ten_frames_eq:
  "ten_frames = \<lparr>stream = Some \<lparr>queuedSamples = replicate 20 0, gain = 1, boundToDevice = True\<rparr>,
     audioBuffer = replicate 20 0, isPlaying = True, volume = 1, sampleRate = 10, channels = 2,
     playHead = 0, deviceId = 0, devicePaused = False\<rparr>"
  by (simp add: ten_frames_def set_audio_data_def ok_env_def g_state_def play_def Let_def
      buffer_size_def from_playHead_def SDL_GetAudioStreamAvailable_def
      SDL_PutAudioStreamData_def)

lemma demo_states_loaded:
  "loaded demo_loaded" "loaded demo_playing" "loaded_sdl2 demo_loaded_sdl2"
  "loaded_sdl2 demo_playing_sdl2" "loaded_sdl2 demo_resampled_sdl2" "loaded ten_frames"
  by (simp_all add: loaded_def loaded_sdl2_def demo_loaded_eq demo_playing_eq
      demo_loaded_sdl2_eq demo_playing_sdl2_eq demo_resampled_sdl2_eq ten_frames_eq
      demo_buffer_def)

text \<open>The rules that evaluate a \<^verbatim>\<open>float\<close> product on numerals.\<close>

lemmas float_eval =
  int_to_float_def mul32_def round32_def ulp32_def exponent2_def round_half_even_def
  compute_bitlen

section \<open>The claims\<close>

subsection \<open>Reading the time where nothing is bound or loaded\<close>

text \<open>
  C10, as the spec states it, fails after a load that fails late. In the SDL2
  engine, when the device opens and \<^verbatim>\<open>SDL_NewAudioStream\<close> fails, no stream
  exists, the device id and the buffer are set, and \<^verbatim>\<open>get_current_time\<close>
  reads 1, the total duration of the example. In the SDL3 engine, when
  \<^verbatim>\<open>SDL_BindAudioStream\<close> fails, the stream exists, bound to no device, and the
  time read is again 1.
\<close>

theorem time_after_late_load_failure:
  "stream stream_failed_sdl2 = None \<and> get_current_time_sdl2 stream_failed_sdl2 = Inr 1 \<and>
   map_option boundToDevice (stream bind_failed) = Some False \<and>
   get_current_time bind_failed = Inr 1"
  by (simp add: stream_failed_sdl2_def bind_failed_def set_audio_data_sdl2_def
      set_audio_data_def g_state_sdl2_def g_state_def Let_def demo_buffer_def
      get_current_time_sdl2_def get_current_time_def SDL_GetQueuedAudioSize_def
      SDL_GetAudioStreamAvailable_def buffer_size_def)

text \<open>
  C10, amended. \<^verbatim>\<open>get_current_time\<close> returns exactly 0 when the handle it tests
  is missing or the buffer is empty. The handle is the stream in the SDL3 engine
  and the device in the SDL2 engine. It is missing in an engine that has loaded
  nothing, and after a load that fails at the copy of the samples, at the creation
  of the stream (SDL3) or at the opening of the device (SDL2). The function only
  reads the state: it returns a value and no state.
\<close>

theorem get_current_time_unbound_or_empty:
  "(stream s = None \<or> audioBuffer s = [] \<longrightarrow> get_current_time s = Inr 0) \<and>
   (deviceId s2 = 0 \<or> audioBuffer s2 = [] \<longrightarrow> get_current_time_sdl2 s2 = Inr 0) \<and>
   (assign env = Threw left \<or> \<not> createStream env \<longrightarrow>
      get_current_time (set_audio_data env buf chans rate s) = Inr 0) \<and>
   (assign_sdl2 env2 = Threw left2 \<or> openDevice env2 = 0 \<longrightarrow>
      get_current_time_sdl2 (set_audio_data_sdl2 env2 buf2 chans2 rate2 s2) = Inr 0)"
proof (intro conjI impI)
  assume "stream s = None \<or> audioBuffer s = []"
  then show "get_current_time s = Inr 0"
    by (auto simp: get_current_time_def split: option.splits)
next
  assume "deviceId s2 = 0 \<or> audioBuffer s2 = []"
  then show "get_current_time_sdl2 s2 = Inr 0"
    by (auto simp: get_current_time_sdl2_def)
next
  assume "assign env = Threw left \<or> \<not> createStream env"
  then have "stream (set_audio_data env buf chans rate s) = None"
    by (auto simp: set_audio_data_def Let_def split: assign_result.splits)
  then show "get_current_time (set_audio_data env buf chans rate s) = Inr 0"
    by (simp add: get_current_time_def)
next
  assume "assign_sdl2 env2 = Threw left2 \<or> openDevice env2 = 0"
  then have "deviceId (set_audio_data_sdl2 env2 buf2 chans2 rate2 s2) = 0"
    by (auto simp: set_audio_data_sdl2_def Let_def split: assign_result.splits)
  then show "get_current_time_sdl2 (set_audio_data_sdl2 env2 buf2 chans2 rate2 s2) = Inr 0"
    by (simp add: get_current_time_sdl2_def)
qed

text \<open>The witness: the fresh engine with samples put in its buffer, the loaded
  example with its buffer emptied, and loads of the example that fail at the
  creation of the stream and at the opening of the device.\<close>

theorem get_current_time_unbound_or_empty_witness:
  "get_current_time (g_state\<lparr>audioBuffer := demo_buffer\<rparr>) = Inr 0 \<and>
   get_current_time (demo_loaded\<lparr>audioBuffer := []\<rparr>) = Inr 0 \<and>
   get_current_time_sdl2 (g_state_sdl2\<lparr>audioBuffer := demo_buffer\<rparr>) = Inr 0 \<and>
   get_current_time_sdl2 (demo_loaded_sdl2\<lparr>audioBuffer := []\<rparr>) = Inr 0 \<and>
   get_current_time
     (set_audio_data \<lparr>assign = Assigned, createStream = False, bindStream = False\<rparr>
        demo_buffer 2 4 demo_playing) = Inr 0 \<and>
   get_current_time_sdl2
     (set_audio_data_sdl2 \<lparr>assign_sdl2 = Assigned, openDevice = 0, haveFreq = 4,
        haveChannels = 2, newStream = Some plain_convert\<rparr>
        demo_buffer 2 4 demo_playing_sdl2) = Inr 0"
proof -
  let ?env = "\<lparr>assign = Assigned, createStream = False, bindStream = False\<rparr>"
  let ?env2 = "\<lparr>assign_sdl2 = Assigned, openDevice = 0, haveFreq = 4,
        haveChannels = 2, newStream = Some plain_convert\<rparr>"
  have "stream (g_state\<lparr>audioBuffer := demo_buffer\<rparr>) = None"
    by (simp add: g_state_def)
  moreover have "audioBuffer (demo_loaded\<lparr>audioBuffer := []\<rparr>) = []" by simp
  moreover have "deviceId (g_state_sdl2\<lparr>audioBuffer := demo_buffer\<rparr>) = 0"
    by (simp add: g_state_sdl2_def)
  moreover have "audioBuffer (demo_loaded_sdl2\<lparr>audioBuffer := []\<rparr>) = []" by simp
  moreover have "\<not> createStream ?env" "openDevice ?env2 = 0" by simp_all
  ultimately show ?thesis
    using get_current_time_unbound_or_empty [of "g_state\<lparr>audioBuffer := demo_buffer\<rparr>"
        "g_state_sdl2\<lparr>audioBuffer := demo_buffer\<rparr>" ?env "[]" demo_buffer 2 4
        ?env2 "[]" demo_buffer 2 4]
      get_current_time_unbound_or_empty [of "demo_loaded\<lparr>audioBuffer := []\<rparr>"
        "demo_loaded_sdl2\<lparr>audioBuffer := []\<rparr>" ?env "[]" demo_buffer 2 4
        ?env2 "[]" demo_buffer 2 4]
      get_current_time_unbound_or_empty [of demo_playing demo_playing_sdl2 ?env "[]"
        demo_buffer 2 4 ?env2 "[]" demo_buffer 2 4]
    by blast
qed

subsection \<open>Idempotence of play and pause\<close>

lemma play_idem: "play (play s) = play s"
  by (simp add: play_def Let_def split: option.splits)

lemma push_remaining_frame:
  "isPlaying (push_remaining n s) = isPlaying s"
  "deviceId (push_remaining n s) = deviceId s"
  "audioBuffer (push_remaining n s) = audioBuffer s"
  "playHead (push_remaining n s) = playHead s"
  by (simp_all add: push_remaining_def Let_def split: option.splits)

lemma play_sdl2_idem: "play_sdl2 (play_sdl2 s) = play_sdl2 s"
proof (cases "deviceId s = 0 \<or> audioBuffer s = [] \<or> isPlaying s")
  case True
  then show ?thesis by (auto simp: play_sdl2_def)
next
  case False
  then have "isPlaying (play_sdl2 s)"
    by (simp add: play_sdl2_def Let_def push_remaining_frame)
  then show ?thesis
    by (simp add: play_sdl2_def [of "play_sdl2 s"])
qed

text \<open>
  C9. \<^verbatim>\<open>play\<close> and \<^verbatim>\<open>pause\<close> are idempotent on the whole state, pipeline
  contents included; \<^verbatim>\<open>play\<close> does nothing when the buffer is empty, and
  \<^verbatim>\<open>pause\<close> does nothing when the engine is already paused. Both engines.
\<close>

theorem play_pause_idempotent:
  "play (play s) = play s \<and> pause_audio (pause_audio s) = pause_audio s \<and>
   (audioBuffer s = [] \<longrightarrow> play s = s) \<and> (\<not> isPlaying s \<longrightarrow> pause_audio s = s) \<and>
   play_sdl2 (play_sdl2 s2) = play_sdl2 s2 \<and>
   pause_audio_sdl2 (pause_audio_sdl2 s2) = pause_audio_sdl2 s2 \<and>
   (audioBuffer s2 = [] \<longrightarrow> play_sdl2 s2 = s2) \<and>
   (\<not> isPlaying s2 \<longrightarrow> pause_audio_sdl2 s2 = s2)"
proof -
  have "audioBuffer s = [] \<longrightarrow> play s = s"
    by (simp add: play_def split: option.splits)
  moreover have "audioBuffer s2 = [] \<longrightarrow> play_sdl2 s2 = s2"
    by (simp add: play_sdl2_def)
  ultimately show ?thesis
    by (simp add: play_idem play_sdl2_idem pause_audio_def pause_audio_sdl2_def)
qed

theorem play_pause_idempotent_witness:
  "play (play demo_loaded) = play demo_loaded \<and>
   pause_audio (pause_audio demo_playing) = pause_audio demo_playing \<and>
   play g_state = g_state \<and> pause_audio demo_loaded = demo_loaded \<and>
   play_sdl2 (play_sdl2 demo_loaded_sdl2) = play_sdl2 demo_loaded_sdl2 \<and>
   pause_audio_sdl2 (pause_audio_sdl2 demo_playing_sdl2) = pause_audio_sdl2 demo_playing_sdl2 \<and>
   play_sdl2 g_state_sdl2 = g_state_sdl2 \<and> pause_audio_sdl2 demo_loaded_sdl2 = demo_loaded_sdl2"
proof -
  have "audioBuffer g_state = []" "\<not> isPlaying demo_loaded"
    "audioBuffer g_state_sdl2 = []" "\<not> isPlaying demo_loaded_sdl2"
    by (simp_all add: g_state_def g_state_sdl2_def demo_loaded_eq demo_loaded_sdl2_eq)
  then show ?thesis
    using play_pause_idempotent [of demo_loaded demo_loaded_sdl2]
      play_pause_idempotent [of demo_playing demo_playing_sdl2]
      play_pause_idempotent [of g_state g_state_sdl2]
    by blast
qed

subsection \<open>Calls with no buffer loaded\<close>

text \<open>
  C8, as the spec states it, fails at the engine as it starts: \<^verbatim>\<open>set_volume\<close>
  stores the gain whether or not a buffer is loaded.
\<close>

theorem set_volume_changes_empty_engine:
  "volume g_state = 1 \<and> volume (set_volume (1 / 2) g_state) = 1 / 2 \<and>
   volume g_state_sdl2 = 1 \<and> volume (set_volume_sdl2 (1 / 2) g_state_sdl2) = 1 / 2"
  by (simp add: g_state_def g_state_sdl2_def set_volume_def set_volume_sdl2_def)

text \<open>
  C8, amended. With no buffer loaded \<^verbatim>\<open>set_volume\<close> reports no error and
  changes nothing but the stored volume (and, in the SDL3 engine, the gain of a
  stream that is bound); \<^verbatim>\<open>play\<close> and \<^verbatim>\<open>seek\<close> leave the whole state as it is.
\<close>

theorem no_buffer_calls:
  "(audioBuffer s = [] \<longrightarrow>
      set_volume vol s =
        s\<lparr>volume := vol, stream := map_option (\<lambda>st. st\<lparr>gain := vol\<rparr>) (stream s)\<rparr> \<and>
      play s = s \<and> seek t s = Inr s) \<and>
   (audioBuffer s2 = [] \<longrightarrow>
      set_volume_sdl2 vol s2 = s2\<lparr>volume := vol\<rparr> \<and>
      play_sdl2 s2 = s2 \<and> seek_sdl2 t s2 = Inr s2)"
  by (auto simp: set_volume_def SDL_SetAudioStreamGain_def play_def seek_def
      set_volume_sdl2_def play_sdl2_def seek_sdl2_def Let_def split: option.splits)

theorem no_buffer_calls_witness:
  "set_volume (1 / 2) g_state = g_state\<lparr>volume := 1 / 2\<rparr> \<and>
   play g_state = g_state \<and> seek 3 g_state = Inr g_state \<and>
   set_volume_sdl2 (1 / 2) g_state_sdl2 = g_state_sdl2\<lparr>volume := 1 / 2\<rparr> \<and>
   play_sdl2 g_state_sdl2 = g_state_sdl2 \<and> seek_sdl2 3 g_state_sdl2 = Inr g_state_sdl2"
proof -
  have "audioBuffer g_state = []" "audioBuffer g_state_sdl2 = []" "stream g_state = None"
    by (simp_all add: g_state_def g_state_sdl2_def)
  then show ?thesis
    using no_buffer_calls [of g_state "1 / 2" 3 g_state_sdl2] by simp
qed

subsection \<open>Resuming\<close>

lemma resume_audio_sdl2_is_play: "\<not> isPlaying s \<Longrightarrow> resume_audio_sdl2 s = play_sdl2 s"
  by (simp add: resume_audio_sdl2_def)

text \<open>
  C7 holds in the SDL2 engine, where \<^verbatim>\<open>resume_audio\<close> calls \<^verbatim>\<open>play\<close> (the lemma
  above), and fails in the SDL3 engine. On the example buffer, loaded and paused
  with nothing pending and the play head at 0, \<^verbatim>\<open>play\<close> enqueues the whole
  buffer and \<^verbatim>\<open>resume_audio\<close> enqueues nothing; on the engine with nothing
  loaded \<^verbatim>\<open>resume_audio\<close> sets \<open>isPlaying\<close> and \<^verbatim>\<open>play\<close> does not.
\<close>

theorem resume_audio_enqueues_nothing:
  "play demo_loaded =
     demo_loaded\<lparr>isPlaying := True, devicePaused := False,
       stream := Some \<lparr>queuedSamples = demo_buffer, gain = 1, boundToDevice = True\<rparr>\<rparr> \<and>
   resume_audio demo_loaded =
     demo_loaded\<lparr>isPlaying := True, devicePaused := False,
       stream := Some \<lparr>queuedSamples = [], gain = 1, boundToDevice = True\<rparr>\<rparr> \<and>
   play g_state = g_state \<and> resume_audio g_state = g_state\<lparr>isPlaying := True\<rparr>"
  by (simp add: demo_loaded_eq g_state_def play_def resume_audio_def Let_def buffer_size_def
      from_playHead_def SDL_GetAudioStreamAvailable_def SDL_PutAudioStreamData_def
      demo_buffer_def)

subsection \<open>Loading\<close>

text \<open>
  C2 fails in both engines. After a load nothing has been put into the pipeline,
  so the pending amount is 0, and \<^verbatim>\<open>get_current_time\<close> takes everything from
  the play head to the end as played: it returns the total duration. For one
  second of stereo audio at 44100 Hz, loaded over any prior state, the time read
  is 1 and not 0; \<open>isPlaying\<close> is false, as the claim says.
\<close>

theorem time_after_load_is_duration:
  "get_current_time (set_audio_data ok_env (replicate 88200 0) 2 44100 s) = Inr 1 \<and>
   \<not> isPlaying (set_audio_data ok_env (replicate 88200 0) 2 44100 s) \<and>
   get_current_time_sdl2
     (set_audio_data_sdl2 \<lparr>assign_sdl2 = Assigned, openDevice = 2, haveFreq = 44100,
        haveChannels = 2, newStream = Some cv\<rparr> (replicate 88200 0) 2 44100 s2) = Inr 1 \<and>
   \<not> isPlaying
     (set_audio_data_sdl2 \<lparr>assign_sdl2 = Assigned, openDevice = 2, haveFreq = 44100,
        haveChannels = 2, newStream = Some cv\<rparr> (replicate 88200 0) 2 44100 s2)"
  by (simp add: get_current_time_def set_audio_data_def ok_env_def Let_def buffer_size_def
      SDL_GetAudioStreamAvailable_def get_current_time_sdl2_def set_audio_data_sdl2_def
      SDL_GetQueuedAudioSize_def)

text \<open>The same reading after a seek on the paused engine and after \<^verbatim>\<open>stop\<close>: the
  play head is where it was put, and the time read is the total duration.\<close>

lemma time_after_paused_seek_is_duration:
  "time_after_seek (1 / 2) demo_loaded = Inr 1"
  "time_after_seek_sdl2 (1 / 2) demo_loaded_sdl2 = Inr 1"
  "get_current_time (stop demo_playing) = Inr 1"
  by (simp_all add: demo_loaded_eq demo_loaded_sdl2_eq demo_playing_eq time_after_seek_def
      time_after_seek_sdl2_def seek_def seek_sdl2_def seek_index_def float_to_size_t_def
      float_eval stop_def Let_def buffer_size_def SDL_ClearAudioStream_def SDL_AudioStreamClear_def
      get_current_time_def get_current_time_sdl2_def SDL_GetAudioStreamAvailable_def
      SDL_GetQueuedAudioSize_def demo_buffer_def)

text \<open>
  C5, as the spec states it, fails: a load with channel count 0 and sample rate 0
  over the playing example is not refused. It stores both zeros, stops playback
  and replaces the pipeline.
\<close>

theorem load_accepts_invalid_format:
  "set_audio_data ok_env demo_buffer 0 0 demo_playing =
     demo_playing\<lparr>channels := 0, sampleRate := 0, isPlaying := False,
       stream := Some \<lparr>queuedSamples = [], gain = 1, boundToDevice = True\<rparr>\<rparr> \<and>
   set_audio_data_sdl2 ok_env_sdl2 demo_buffer 0 0 demo_playing_sdl2 =
     demo_playing_sdl2\<lparr>channels := 0, sampleRate := 0, isPlaying := False,
       devicePaused := True, deviceQueue := []\<rparr>"
  by (simp add: demo_playing_eq demo_playing_sdl2_eq set_audio_data_def
      set_audio_data_sdl2_def ok_env_def ok_env_sdl2_def)

text \<open>
  C5, amended. \<^verbatim>\<open>set_audio_data\<close> checks neither the channel count nor the
  sample rate and reports no error. Whatever the two are, when the copy of the
  samples succeeds the load releases the previous stream, replaces the buffer,
  stores the channel count and the sample rate it is given, and resets the play
  head to 0 and \<open>isPlaying\<close> to false; the new stream is there if SDL created one
  (SDL2: if SDL opened a device and created a stream).
\<close>

theorem load_stores_any_format:
  "(assign env = Assigned \<longrightarrow>
      set_audio_data env buf chans rate s =
        s\<lparr>audioBuffer := buf, channels := chans, sampleRate := rate, playHead := 0,
          isPlaying := False,
          stream := (if createStream env
                     then Some \<lparr>queuedSamples = [], gain = 1, boundToDevice = bindStream env\<rparr>
                     else None)\<rparr>) \<and>
   (assign_sdl2 env2 = Assigned \<longrightarrow>
      audioBuffer (set_audio_data_sdl2 env2 buf chans rate s2) = buf \<and>
      channels (set_audio_data_sdl2 env2 buf chans rate s2) = chans \<and>
      sampleRate (set_audio_data_sdl2 env2 buf chans rate s2) = rate \<and>
      playHead (set_audio_data_sdl2 env2 buf chans rate s2) = 0 \<and>
      isPlaying (set_audio_data_sdl2 env2 buf chans rate s2) = False \<and>
      deviceId (set_audio_data_sdl2 env2 buf chans rate s2) = openDevice env2 \<and>
      stream (set_audio_data_sdl2 env2 buf chans rate s2) =
        (if openDevice env2 = 0 then None
         else map_option (\<lambda>cv. \<lparr>convert = cv, converted = []\<rparr>) (newStream env2)))"
  by (auto simp: set_audio_data_def set_audio_data_sdl2_def Let_def split: option.splits)

theorem load_stores_any_format_witness:
  "set_audio_data ok_env demo_buffer 0 (- 1) g_state =
     g_state\<lparr>audioBuffer := demo_buffer, channels := 0, sampleRate := - 1, playHead := 0,
       isPlaying := False,
       stream := Some \<lparr>queuedSamples = [], gain = 1, boundToDevice = True\<rparr>\<rparr> \<and>
   channels (set_audio_data_sdl2 ok_env_sdl2 demo_buffer 0 (- 1) g_state_sdl2) = 0 \<and>
   sampleRate (set_audio_data_sdl2 ok_env_sdl2 demo_buffer 0 (- 1) g_state_sdl2) = - 1 \<and>
   audioBuffer (set_audio_data_sdl2 ok_env_sdl2 demo_buffer 0 (- 1) g_state_sdl2) = demo_buffer"
proof -
  have "assign ok_env = Assigned" "assign_sdl2 ok_env_sdl2 = Assigned" "createStream ok_env"
    "bindStream ok_env"
    by (simp_all add: ok_env_def ok_env_sdl2_def)
  then show ?thesis
    using load_stores_any_format [of ok_env demo_buffer 0 "- 1" g_state ok_env_sdl2 g_state_sdl2]
    by simp
qed

text \<open>
  C6, as the spec states it, fails. The copy fails during a load over the playing
  example, and the failed assignment even leaves the old samples in the buffer:
  the stream that was bound is gone all the same (SDL2: and the device is closed).
\<close>

theorem failed_copy_loses_binding:
  "stream demo_playing = Some \<lparr>queuedSamples = demo_buffer, gain = 1, boundToDevice = True\<rparr> \<and>
   stream (set_audio_data \<lparr>assign = Threw demo_buffer, createStream = True, bindStream = True\<rparr>
     demo_buffer 2 4 demo_playing) = None \<and>
   deviceId demo_playing_sdl2 = 2 \<and>
   deviceId (set_audio_data_sdl2 \<lparr>assign_sdl2 = Threw demo_buffer, openDevice = 2,
     haveFreq = 4, haveChannels = 2, newStream = Some plain_convert\<rparr>
     demo_buffer 2 4 demo_playing_sdl2) = 0 \<and>
   stream (set_audio_data_sdl2 \<lparr>assign_sdl2 = Threw demo_buffer, openDevice = 2,
     haveFreq = 4, haveChannels = 2, newStream = Some plain_convert\<rparr>
     demo_buffer 2 4 demo_playing_sdl2) = None"
  by (simp add: demo_playing_eq demo_playing_sdl2_eq set_audio_data_def set_audio_data_sdl2_def)

text \<open>
  C6, amended. When the copy of the samples fails, the load stops after it has
  released the previous pipeline: the stream is null (SDL2: and the device is
  closed, its queue gone). The channel count, the sample rate, the play head,
  \<open>isPlaying\<close> and the volume keep their values, the buffer holds what the failed
  assignment left, and \<^verbatim>\<open>play\<close> on the result does nothing.
\<close>

theorem failed_copy_releases_pipeline:
  "(assign env = Threw left \<longrightarrow>
      set_audio_data env buf chans rate s = s\<lparr>stream := None, audioBuffer := left\<rparr> \<and>
      play (set_audio_data env buf chans rate s) = set_audio_data env buf chans rate s) \<and>
   (assign_sdl2 env2 = Threw left2 \<longrightarrow>
      set_audio_data_sdl2 env2 buf chans rate s2 =
        s2\<lparr>stream := None, deviceId := 0,
           deviceQueue := (if deviceId s2 = 0 then deviceQueue s2 else []),
           audioBuffer := left2\<rparr> \<and>
      play_sdl2 (set_audio_data_sdl2 env2 buf chans rate s2) =
        set_audio_data_sdl2 env2 buf chans rate s2)"
  by (auto simp: set_audio_data_def set_audio_data_sdl2_def play_def play_sdl2_def Let_def)

theorem failed_copy_releases_pipeline_witness:
  "set_audio_data \<lparr>assign = Threw [], createStream = True, bindStream = True\<rparr>
     demo_buffer 2 4 demo_playing = demo_playing\<lparr>stream := None, audioBuffer := []\<rparr> \<and>
   set_audio_data_sdl2 \<lparr>assign_sdl2 = Threw [], openDevice = 2, haveFreq = 4,
     haveChannels = 2, newStream = Some plain_convert\<rparr> demo_buffer 2 4 demo_playing_sdl2 =
     demo_playing_sdl2\<lparr>stream := None, deviceId := 0, deviceQueue := [], audioBuffer := []\<rparr>"
proof -
  have "deviceId demo_playing_sdl2 \<noteq> 0"
    by (simp add: demo_playing_sdl2_eq)
  then show ?thesis
    using failed_copy_releases_pipeline [of
        "\<lparr>assign = Threw [], createStream = True, bindStream = True\<rparr>" "[]" demo_buffer 2 4
        demo_playing
        "\<lparr>assign_sdl2 = Threw [], openDevice = 2, haveFreq = 4, haveChannels = 2,
          newStream = Some plain_convert\<rparr>"
        "[]" demo_playing_sdl2]
    by simp
qed

subsection \<open>The time while the pipeline drains\<close>

lemma total_duration_frames:
  assumes "loaded s"
  shows "total_duration s =
           real (length (audioBuffer s))
             / (real (nat (sint (channels s))) * real_of_int (sint (sampleRate s)))"
proof -
  from assms have "0 < sint (channels s)" by (simp add: loaded_def)
  then have "real (nat (sint (channels s))) = real_of_int (sint (channels s))"
    by (simp del: of_int_sint)
  then show ?thesis
    by (simp add: total_duration_def del: of_int_sint)
qed

lemma get_current_time_sdl2_clamped:
  assumes ld: "loaded_sdl2 s" and q: "length (deviceQueue s) < 2 ^ 32"
  shows "\<exists>a. get_current_time_sdl2 s = Inr a \<and> 0 \<le> a \<and> a \<le> total_duration s"
proof -
  let ?Q = "real (length (deviceQueue s)) / real (unat (4 * deviceChannels s * deviceFreq s))"
  have val: "get_current_time_sdl2 s = Inr (max 0 (total_duration s - ?Q))"
    using get_current_time_sdl2_value [OF ld q] by (simp only: total_duration_def)
  from ld have "0 < sint (channels s) * sint (sampleRate s)"
    by (simp add: loaded_sdl2_def loaded_def)
  then have T: "0 \<le> total_duration s"
    by (simp add: total_duration_def del: of_int_sint of_int_mult)
  have "0 \<le> ?Q" by (simp del: of_nat_unat)
  with T have "max 0 (total_duration s - ?Q) \<le> total_duration s" by simp
  with val show ?thesis by (intro exI [of _ "max 0 (total_duration s - ?Q)"]) simp
qed

lemma get_current_time_sdl2_antitone:
  assumes ld: "loaded_sdl2 s" and q: "length (deviceQueue s) < 2 ^ 32"
    and drain: "length q' \<le> length (deviceQueue s)"
  shows "\<exists>a b. get_current_time_sdl2 s = Inr a \<and>
           get_current_time_sdl2 (s\<lparr>deviceQueue := q'\<rparr>) = Inr b \<and> a \<le> b"
proof -
  let ?D = "real (unat (4 * deviceChannels s * deviceFreq s))"
  let ?a = "max 0 (total_duration s - real (length (deviceQueue s)) / ?D)"
  let ?b = "max 0 (total_duration s - real (length q') / ?D)"
  have a: "get_current_time_sdl2 s = Inr ?a"
    using get_current_time_sdl2_value [OF ld q] by (simp only: total_duration_def)
  from ld have ld': "loaded_sdl2 (s\<lparr>deviceQueue := q'\<rparr>)"
    by (simp add: loaded_sdl2_def loaded_def)
  from q drain have q': "length (deviceQueue (s\<lparr>deviceQueue := q'\<rparr>)) < 2 ^ 32" by simp
  have b: "get_current_time_sdl2 (s\<lparr>deviceQueue := q'\<rparr>) = Inr ?b"
    using get_current_time_sdl2_value [OF ld' q']
    by (simp add: total_duration_def del: of_nat_unat of_int_sint of_int_mult)
  from drain have "real (length q') \<le> real (length (deviceQueue s))"
    by (simp only: of_nat_le_iff)
  then have "real (length q') / ?D \<le> real (length (deviceQueue s)) / ?D"
    by (intro divide_right_mono) (simp_all del: of_nat_unat)
  then have "?a \<le> ?b" by (simp add: max_def)
  with a b show ?thesis by blast
qed

text \<open>
  The bound on the pending amount of the SDL3 stream is an invariant of the engine:
  it holds at the start and after every load, and \<^verbatim>\<open>seek\<close>, \<^verbatim>\<open>play\<close>,
  the other calls and the draining of the device keep it.
\<close>

lemma pending_bounded_start: "pending_bounded g_state"
  by (simp add: pending_bounded_def g_state_def)

lemma pending_bounded_load: "pending_bounded (set_audio_data env buf chans rate s)"
  by (simp add: pending_bounded_def set_audio_data_def Let_def split: assign_result.splits)

lemma pending_bounded_seek:
  assumes "pending_bounded s" and "seek t s = Inr s'"
  shows "pending_bounded s'"
proof (cases "stream s")
  case None
  with assms show ?thesis
    by (simp add: seek_def)
next
  case (Some st)
  show ?thesis
  proof (cases "audioBuffer s = []")
    case True
    with Some assms show ?thesis
      by (simp add: seek_def)
  next
    case False
    with Some assms show ?thesis
      by (auto simp: seek_def pending_bounded_def Let_def SDL_ClearAudioStream_def
          SDL_PutAudioStreamData_def from_playHead_def split: sum.splits if_splits)
  qed
qed

lemma no_bytes_no_samples:
  assumes "SDL_GetAudioStreamAvailable st = 0" and "length (queuedSamples st) < 2 ^ 30"
  shows "queuedSamples st = []"
proof -
  from assms(2) have "4 * length (queuedSamples st) < 2 ^ 32" by simp
  then have "unat (word_of_nat (4 * length (queuedSamples st)) :: 32 word)
               = 4 * length (queuedSamples st)"
    by (rule unat_size)
  with assms(1) have "4 * length (queuedSamples st) = 0"
    by (simp only: SDL_GetAudioStreamAvailable_def unat_0)
  then show ?thesis by simp
qed

lemma pending_bounded_play:
  assumes "pending_bounded s"
  shows "pending_bounded (play s)"
proof (cases "stream s")
  case None
  then show ?thesis by (simp add: play_def pending_bounded_def)
next
  case (Some st)
  show ?thesis
  proof (cases "2 ^ 30 \<le> length (audioBuffer s)")
    case True
    with Some show ?thesis
      by (auto simp: play_def pending_bounded_def Let_def)
  next
    case False
    with Some assms have le: "length (queuedSamples st) \<le> length (audioBuffer s)"
      by (simp add: pending_bounded_def)
    with False have small: "length (queuedSamples st) < 2 ^ 30" by simp
    have "queuedSamples st = []" if "SDL_GetAudioStreamAvailable st = 0"
      using that small by (rule no_bytes_no_samples)
    with Some le show ?thesis
      by (auto simp: play_def pending_bounded_def Let_def SDL_PutAudioStreamData_def
          from_playHead_def)
  qed
qed

lemma pending_bounded_others:
  assumes "pending_bounded s"
  shows "pending_bounded (pause_audio s)" "pending_bounded (resume_audio s)"
    "pending_bounded (stop s)" "pending_bounded (set_volume vol s)"
    "pending_bounded (drain k s)"
  using assms
  by (auto simp: pending_bounded_def pause_audio_def resume_audio_def stop_def set_volume_def
      drain_def SDL_ClearAudioStream_def SDL_SetAudioStreamGain_def Let_def
      split: option.splits)

text \<open>
  C3. For a loaded buffer with a valid format, \<^verbatim>\<open>get_current_time\<close> returns a
  time between 0 and the total duration, whatever the pipeline reports. And with
  the play head and the buffer fixed, it does not decrease when the pending amount
  shrinks: in the SDL3 engine from a pending amount that is no more than the
  buffer, which is the invariant above; in the SDL2 engine from any queue size.
\<close>

theorem time_antitone_in_pending:
  "(loaded s \<and> stream s = Some st \<longrightarrow>
      (\<exists>a. get_current_time s = Inr a \<and> 0 \<le> a \<and> a \<le> total_duration s) \<and>
      (pending_bounded s \<and> length (queuedSamples st') \<le> length (queuedSamples st) \<longrightarrow>
         (\<exists>a b. get_current_time s = Inr a \<and>
            get_current_time (s\<lparr>stream := Some st'\<rparr>) = Inr b \<and> a \<le> b))) \<and>
   (loaded_sdl2 s2 \<and> length (deviceQueue s2) < 2 ^ 32 \<longrightarrow>
      (\<exists>a. get_current_time_sdl2 s2 = Inr a \<and> 0 \<le> a \<and> a \<le> total_duration s2) \<and>
      (length q' \<le> length (deviceQueue s2) \<longrightarrow>
         (\<exists>a b. get_current_time_sdl2 s2 = Inr a \<and>
            get_current_time_sdl2 (s2\<lparr>deviceQueue := q'\<rparr>) = Inr b \<and> a \<le> b)))"
proof (intro conjI impI)
  assume h: "loaded s \<and> stream s = Some st"
  then have ld: "loaded s" and st: "stream s = Some st" by simp_all
  from get_current_time_clamped [OF ld st]
  show "\<exists>a. get_current_time s = Inr a \<and> 0 \<le> a \<and> a \<le> total_duration s"
    by (simp only: total_duration_frames [OF ld])
  assume "pending_bounded s \<and> length (queuedSamples st') \<le> length (queuedSamples st)"
  then have drain: "length (queuedSamples st') \<le> length (queuedSamples st)"
    and inv: "pending_bounded s" by simp_all
  from ld have "\<not> 2 ^ 30 \<le> length (audioBuffer s)" by (simp add: loaded_def)
  with inv st have pend: "length (queuedSamples st) \<le> length (audioBuffer s)"
    by (simp add: pending_bounded_def)
  from ld st drain pend
  show "\<exists>a b. get_current_time s = Inr a \<and>
            get_current_time (s\<lparr>stream := Some st'\<rparr>) = Inr b \<and> a \<le> b"
    by (rule get_current_time_antitone)
next
  assume h: "loaded_sdl2 s2 \<and> length (deviceQueue s2) < 2 ^ 32"
  then have ld: "loaded_sdl2 s2" and q: "length (deviceQueue s2) < 2 ^ 32" by simp_all
  from ld q
  show "\<exists>a. get_current_time_sdl2 s2 = Inr a \<and> 0 \<le> a \<and> a \<le> total_duration s2"
    by (rule get_current_time_sdl2_clamped)
  assume drain: "length q' \<le> length (deviceQueue s2)"
  from ld q drain
  show "\<exists>a b. get_current_time_sdl2 s2 = Inr a \<and>
            get_current_time_sdl2 (s2\<lparr>deviceQueue := q'\<rparr>) = Inr b \<and> a \<le> b"
    by (rule get_current_time_sdl2_antitone)
qed

text \<open>The witness: the playing example, and the same state after the device has
  consumed two of the four frames.\<close>

theorem time_antitone_in_pending_witness:
  "(\<exists>a. get_current_time demo_playing = Inr a \<and> 0 \<le> a \<and> a \<le> total_duration demo_playing) \<and>
   (\<exists>a b. get_current_time demo_playing = Inr a \<and>
      get_current_time
        (demo_playing\<lparr>stream := Some \<lparr>queuedSamples = [4, 5, 6, 7], gain = 1,
           boundToDevice = True\<rparr>\<rparr>) = Inr b \<and> a \<le> b) \<and>
   (\<exists>a. get_current_time_sdl2 demo_playing_sdl2 = Inr a \<and> 0 \<le> a \<and>
      a \<le> total_duration demo_playing_sdl2) \<and>
   (\<exists>a b. get_current_time_sdl2 demo_playing_sdl2 = Inr a \<and>
      get_current_time_sdl2 (demo_playing_sdl2\<lparr>deviceQueue := replicate 16 0\<rparr>) = Inr b \<and>
      a \<le> b)"
proof -
  let ?st = "\<lparr>queuedSamples = demo_buffer, gain = 1, boundToDevice = True\<rparr>"
  let ?st' = "\<lparr>queuedSamples = [4, 5, 6, 7], gain = 1, boundToDevice = True\<rparr>"
  have "loaded demo_playing \<and> stream demo_playing = Some ?st"
    by (simp add: demo_states_loaded) (simp add: demo_playing_eq)
  moreover have "pending_bounded demo_playing \<and>
      length (queuedSamples ?st') \<le> length (queuedSamples ?st)"
    by (simp add: pending_bounded_def demo_playing_eq demo_buffer_def)
  moreover have "loaded_sdl2 demo_playing_sdl2 \<and> length (deviceQueue demo_playing_sdl2) < 2 ^ 32"
    by (simp add: demo_states_loaded) (simp add: demo_playing_sdl2_eq)
  moreover have "length (replicate 16 (0 :: byte)) \<le> length (deviceQueue demo_playing_sdl2)"
    by (simp add: demo_playing_sdl2_eq)
  ultimately show ?thesis
    using time_antitone_in_pending [of demo_playing ?st ?st' demo_playing_sdl2 "replicate 16 0"]
    by blast
qed

subsection \<open>The play head after a seek\<close>

lemma seek_sets_playHead:
  assumes "stream s = Some st" "audioBuffer s \<noteq> []" "seek_index t s = Inr i"
  shows "\<exists>s'. seek t s = Inr s' \<and> playHead s' = i"
  using assms by (simp add: seek_def Let_def)

lemma seek_sdl2_sets_playHead:
  assumes "deviceId s \<noteq> 0" "audioBuffer s \<noteq> []" "seek_index t s = Inr i"
  shows "\<exists>s'. seek_sdl2 t s = Inr s' \<and> playHead s' = i"
  using assms by (simp add: seek_sdl2_def Let_def push_remaining_frame)

text \<open>Where a \<^verbatim>\<open>float\<close> holds every frame number, a time at or beyond the total
  duration aims at or beyond the last frame.\<close>

lemma beyond_duration:
  assumes ld: "loaded s" and whole: "whole_frames s" and ex: "exact_in_float s"
    and late: "total_duration s \<le> t"
  shows "length (audioBuffer s) \<le> target_frame t s * nat (sint (channels s))"
proof -
  let ?c = "nat (sint (channels s))" and ?r = "real_of_int (sint (sampleRate s))"
  let ?k = "length (audioBuffer s) div ?c"
  from ld have c: "0 < ?c" and r: "0 < ?r" and r0: "0 \<le> sint (sampleRate s)"
    by (simp_all add: loaded_def del: of_int_sint)
  from ex have rs: "sint (sampleRate s) < 2 ^ 24" and ks: "?k < 2 ^ 24"
    by (simp_all add: exact_in_float_def)
  have p: "seek_product t s = round32 (t * ?r)"
    by (simp only: seek_product_def mul32_def int_to_float_exact [OF r0 rs])
  from whole have "?c dvd length (audioBuffer s)"
    by (simp add: whole_frames_def mod_eq_0_iff_dvd)
  then have N: "length (audioBuffer s) = ?k * ?c"
    by simp
  have "total_duration s = real (?k * ?c) / (real ?c * ?r)"
    using total_duration_frames [OF ld] N by simp
  also have "\<dots> = real ?k / ?r"
    using c by (simp del: of_int_sint)
  finally have "real ?k / ?r \<le> t" using late by simp
  then have "real ?k \<le> t * ?r"
    using r by (simp add: pos_divide_le_eq del: of_int_sint)
  with ks have "real ?k \<le> round32 (t * ?r)" by (rule round32_above_nat)
  then have "real_of_int (int ?k) \<le> seek_product t s" by (simp only: p of_int_of_nat_eq)
  then have "int ?k \<le> \<lfloor>seek_product t s\<rfloor>"
    by (simp only: le_floor_iff)
  then have "?k \<le> target_frame t s"
    by (simp add: target_frame_def)
  then have "?k * ?c \<le> target_frame t s * ?c"
    by (rule mult_le_mono1)
  with N show ?thesis by simp
qed

lemma seek_index_playHead:
  assumes ld: "loaded s" and whole: "whole_frames s" and def: "index_defined t s"
  shows "\<exists>i. seek_index t s = Inr i \<and>
           unat i mod nat (sint (channels s)) = 0 \<and> unat i \<le> length (audioBuffer s) \<and>
           (index_exact t s \<longrightarrow>
              unat i = min (target_frame t s * nat (sint (channels s))) (length (audioBuffer s)) \<and>
              (exact_in_float s \<and> total_duration s \<le> t \<longrightarrow>
                 unat i = length (audioBuffer s)))"
proof -
  from def have t: "0 \<le> t" and conv: "seek_product t s < 2 ^ 32"
    by (simp_all add: index_defined_def)
  from whole have w: "length (audioBuffer s) mod nat (sint (channels s)) = 0"
    by (simp add: whole_frames_def)
  from seek_index_aligned [OF ld t conv w] obtain i where i: "seek_index t s = Inr i"
    and al: "unat i mod nat (sint (channels s)) = 0" and le: "unat i \<le> length (audioBuffer s)"
    by (elim exE conjE)
  have "index_exact t s \<longrightarrow>
          unat i = min (target_frame t s * nat (sint (channels s))) (length (audioBuffer s)) \<and>
          (exact_in_float s \<and> total_duration s \<le> t \<longrightarrow> unat i = length (audioBuffer s))"
  proof
    assume "index_exact t s"
    then have fits: "target_frame t s * nat (sint (channels s)) < 2 ^ 32"
      by (simp add: index_exact_def)
    from seek_index_exact [OF ld t fits] i
    have m: "unat i = min (target_frame t s * nat (sint (channels s))) (length (audioBuffer s))"
      by auto
    moreover have "exact_in_float s \<and> total_duration s \<le> t \<longrightarrow>
        unat i = length (audioBuffer s)"
      using beyond_duration [OF ld whole] m by simp
    ultimately show "unat i = min (target_frame t s * nat (sint (channels s))) (length (audioBuffer s)) \<and>
          (exact_in_float s \<and> total_duration s \<le> t \<longrightarrow> unat i = length (audioBuffer s))"
      by (rule conjI)
  qed
  with i al le show ?thesis by (intro exI [of _ i] conjI)
qed

text \<open>
  The frame is the \<^verbatim>\<open>float\<close> product truncated, which is not always
  \<open>floor (t * sampleRate)\<close>. The \<^verbatim>\<open>float\<close> nearest to 0.7 is a little below 0.7;
  at ten frames a second the exact product is a little below 7 and the \<^verbatim>\<open>float\<close>
  product is 7: the play head goes to frame 7, sample 14, and the time read is
  0.7. And from \<open>2 ^ 24\<close> frames on a \<^verbatim>\<open>float\<close> does not hold every frame number:
  on 16813125 samples of mono audio at 44.1 kHz, 381.25 seconds, the product for
  381.25 seconds is 16813125 exactly and 16813124 as a \<^verbatim>\<open>float\<close>, so a seek to
  the total duration stops one sample before the end.
\<close>

lemma seek_rounds_product:
  "\<lfloor>seven_tenths * 10\<rfloor> = 6" "target_frame seven_tenths ten_frames = 7"
  "\<exists>s'. seek seven_tenths ten_frames = Inr s' \<and> playHead s' = 14"
  "time_after_seek seven_tenths ten_frames = Inr (7 / 10)"
  by (simp_all add: seven_tenths_def ten_frames_eq target_frame_def seek_product_def
      time_after_seek_def seek_def seek_index_def float_to_size_t_def float_eval Let_def
      buffer_size_def from_playHead_def SDL_ClearAudioStream_def SDL_PutAudioStreamData_def
      SDL_GetAudioStreamAvailable_def get_current_time_def)

lemma seek_to_the_end_of_a_long_track:
  "total_duration (set_audio_data ok_env (replicate 16813125 0) 1 44100 g_state) = 1525 / 4"
  "\<exists>s'. seek (1525 / 4) (set_audio_data ok_env (replicate 16813125 0) 1 44100 g_state) = Inr s' \<and>
      playHead s' = 16813124"
  by (simp_all add: set_audio_data_def ok_env_def g_state_def total_duration_def
      seek_def seek_index_def float_to_size_t_def float_eval Let_def
      buffer_size_def SDL_ClearAudioStream_def)

text \<open>
  C4, as the spec states it, fails for times so large that the \<^verbatim>\<open>size_t\<close>
  product of the frame and the channel count wraps around. On five minutes of
  stereo audio at 48 kHz (28800000 samples), a seek to 45000 seconds computes
  \<open>2160000000 * 2 = 4320000000\<close>, which is 25032704 modulo \<open>2 ^ 32\<close>: the play
  head lands there, inside the buffer, and not at the end.
\<close>

theorem seek_wraps_around:
  "length (audioBuffer long_track) = 28800000 \<and>
   seek 45000 long_track = Inr (long_track\<lparr>playHead := 25032704\<rparr>) \<and>
   length (audioBuffer long_track_sdl2) = 28800000 \<and>
   seek_sdl2 45000 long_track_sdl2 = Inr (long_track_sdl2\<lparr>playHead := 25032704\<rparr>)"
  by (simp add: long_track_eq long_track_sdl2_eq seek_def seek_sdl2_def seek_index_def
      float_to_size_t_def float_eval Let_def buffer_size_def SDL_ClearAudioStream_def
      SDL_AudioStreamClear_def)

text \<open>
  C4, amended. For a loaded buffer of whole frames and a time \<open>t \<ge> 0\<close> whose
  \<^verbatim>\<open>float\<close> product with the sample rate is below \<open>2 ^ 32\<close>, \<^verbatim>\<open>seek\<close> returns
  with a play head that is a multiple of the channel count and at most the
  length. If also the frame, which is that product truncated, times the channel
  count is below \<open>2 ^ 32\<close>, the play head is exactly the frame times the channel
  count, clamped to the length; and where the sample rate and every frame number
  of the buffer are below \<open>2 ^ 24\<close>, it is the length for every such \<open>t\<close> at or
  beyond the total duration.
\<close>

theorem seek_playHead_aligned_and_clamped:
  "(loaded s \<and> stream s = Some st \<and> whole_frames s \<and> index_defined t s \<longrightarrow>
      (\<exists>s'. seek t s = Inr s' \<and>
         unat (playHead s') mod nat (sint (channels s)) = 0 \<and>
         unat (playHead s') \<le> length (audioBuffer s) \<and>
         (index_exact t s \<longrightarrow>
            unat (playHead s') =
              min (target_frame t s * nat (sint (channels s))) (length (audioBuffer s)) \<and>
            (exact_in_float s \<and> total_duration s \<le> t \<longrightarrow>
               unat (playHead s') = length (audioBuffer s))))) \<and>
   (loaded_sdl2 s2 \<and> whole_frames s2 \<and> index_defined t2 s2 \<longrightarrow>
      (\<exists>s'. seek_sdl2 t2 s2 = Inr s' \<and>
         unat (playHead s') mod nat (sint (channels s2)) = 0 \<and>
         unat (playHead s') \<le> length (audioBuffer s2) \<and>
         (index_exact t2 s2 \<longrightarrow>
            unat (playHead s') =
              min (target_frame t2 s2 * nat (sint (channels s2))) (length (audioBuffer s2)) \<and>
            (exact_in_float s2 \<and> total_duration s2 \<le> t2 \<longrightarrow>
               unat (playHead s') = length (audioBuffer s2)))))"
proof (intro conjI impI)
  assume "loaded s \<and> stream s = Some st \<and> whole_frames s \<and> index_defined t s"
  then have ld: "loaded s" and st: "stream s = Some st" and whole: "whole_frames s"
    and def: "index_defined t s"
    by simp_all
  from ld have ne: "audioBuffer s \<noteq> []" by (simp add: loaded_def)
  from seek_index_playHead [OF ld whole def] obtain i where i: "seek_index t s = Inr i"
    and props: "unat i mod nat (sint (channels s)) = 0 \<and> unat i \<le> length (audioBuffer s) \<and>
           (index_exact t s \<longrightarrow>
              unat i = min (target_frame t s * nat (sint (channels s))) (length (audioBuffer s)) \<and>
              (exact_in_float s \<and> total_duration s \<le> t \<longrightarrow>
                 unat i = length (audioBuffer s)))"
    by (elim exE conjE) (rule that, assumption, intro conjI)
  from seek_sets_playHead [OF st ne i] obtain s' where sk: "seek t s = Inr s'"
    and ph: "playHead s' = i"
    by blast
  from props sk show "\<exists>s'. seek t s = Inr s' \<and>
         unat (playHead s') mod nat (sint (channels s)) = 0 \<and>
         unat (playHead s') \<le> length (audioBuffer s) \<and>
         (index_exact t s \<longrightarrow>
            unat (playHead s') =
              min (target_frame t s * nat (sint (channels s))) (length (audioBuffer s)) \<and>
            (exact_in_float s \<and> total_duration s \<le> t \<longrightarrow>
               unat (playHead s') = length (audioBuffer s)))"
    unfolding ph [symmetric] by (intro exI [of _ s']) (rule conjI)
next
  assume "loaded_sdl2 s2 \<and> whole_frames s2 \<and> index_defined t2 s2"
  then have ld2: "loaded_sdl2 s2" and whole: "whole_frames s2" and def: "index_defined t2 s2"
    by simp_all
  from ld2 have ld: "loaded s2" and dev: "deviceId s2 \<noteq> 0"
    by (auto simp: loaded_sdl2_def)
  from ld have ne: "audioBuffer s2 \<noteq> []" by (simp add: loaded_def)
  from seek_index_playHead [OF ld whole def] obtain i where i: "seek_index t2 s2 = Inr i"
    and props: "unat i mod nat (sint (channels s2)) = 0 \<and> unat i \<le> length (audioBuffer s2) \<and>
           (index_exact t2 s2 \<longrightarrow>
              unat i = min (target_frame t2 s2 * nat (sint (channels s2))) (length (audioBuffer s2)) \<and>
              (exact_in_float s2 \<and> total_duration s2 \<le> t2 \<longrightarrow>
                 unat i = length (audioBuffer s2)))"
    by (elim exE conjE) (rule that, assumption, intro conjI)
  from seek_sdl2_sets_playHead [OF dev ne i] obtain s'
    where sk: "seek_sdl2 t2 s2 = Inr s'" and ph: "playHead s' = i"
    by blast
  from props sk show "\<exists>s'. seek_sdl2 t2 s2 = Inr s' \<and>
         unat (playHead s') mod nat (sint (channels s2)) = 0 \<and>
         unat (playHead s') \<le> length (audioBuffer s2) \<and>
         (index_exact t2 s2 \<longrightarrow>
            unat (playHead s') =
              min (target_frame t2 s2 * nat (sint (channels s2))) (length (audioBuffer s2)) \<and>
            (exact_in_float s2 \<and> total_duration s2 \<le> t2 \<longrightarrow>
               unat (playHead s') = length (audioBuffer s2)))"
    unfolding ph [symmetric] by (intro exI [of _ s']) (rule conjI)
qed

lemma demo_quantities:
  "nat (sint (channels demo_playing)) = 2" "length (audioBuffer demo_playing) = 8"
  "real_of_int (sint (sampleRate demo_playing)) = 4"
  "target_frame (5 / 8) demo_playing = 2" "target_frame 2 demo_playing = 8"
  "seek_product 2 demo_playing = 8"
  "total_duration demo_playing = 1" "exact_in_float demo_playing"
  "nat (sint (channels demo_playing_sdl2)) = 2" "length (audioBuffer demo_playing_sdl2) = 8"
  "real_of_int (sint (sampleRate demo_playing_sdl2)) = 4"
  "target_frame 2 demo_playing_sdl2 = 8" "seek_product 2 demo_playing_sdl2 = 8"
  "total_duration demo_playing_sdl2 = 1" "exact_in_float demo_playing_sdl2"
  "nat (sint (channels demo_resampled_sdl2)) = 2"
  "length (audioBuffer demo_resampled_sdl2) = 8"
  "real_of_int (sint (sampleRate demo_resampled_sdl2)) = 4"
  "target_frame (5 / 8) demo_resampled_sdl2 = 2"
  "total_duration demo_resampled_sdl2 = 1" "exact_in_float demo_resampled_sdl2"
  by (simp_all add: demo_playing_eq demo_playing_sdl2_eq demo_resampled_sdl2_eq demo_buffer_def
      target_frame_def seek_product_def float_eval total_duration_def exact_in_float_def)

text \<open>The witness: on the playing example, a seek to 2 seconds, beyond the one
  second of audio, puts the play head at the length 8.\<close>

theorem seek_playHead_aligned_and_clamped_witness:
  "(\<exists>s'. seek 2 demo_playing = Inr s' \<and> unat (playHead s') mod 2 = 0 \<and>
      unat (playHead s') \<le> 8 \<and> unat (playHead s') = 8) \<and>
   (\<exists>s'. seek_sdl2 2 demo_playing_sdl2 = Inr s' \<and> unat (playHead s') mod 2 = 0 \<and>
      unat (playHead s') \<le> 8 \<and> unat (playHead s') = 8)"
proof -
  let ?st = "\<lparr>queuedSamples = demo_buffer, gain = 1, boundToDevice = True\<rparr>"
  have "loaded demo_playing \<and> stream demo_playing = Some ?st \<and> whole_frames demo_playing \<and>
      index_defined 2 demo_playing"
    by (simp add: demo_states_loaded whole_frames_def index_defined_def demo_quantities
        del: of_int_sint) (simp add: demo_playing_eq)
  moreover have "loaded_sdl2 demo_playing_sdl2 \<and> whole_frames demo_playing_sdl2 \<and>
      index_defined 2 demo_playing_sdl2"
    by (simp add: demo_states_loaded whole_frames_def index_defined_def demo_quantities
        del: of_int_sint)
  moreover have "index_exact 2 demo_playing" "index_exact 2 demo_playing_sdl2"
    "exact_in_float demo_playing \<and> total_duration demo_playing \<le> 2"
    "exact_in_float demo_playing_sdl2 \<and> total_duration demo_playing_sdl2 \<le> 2"
    by (simp_all add: index_exact_def demo_quantities)
  ultimately show ?thesis
    using seek_playHead_aligned_and_clamped [of demo_playing ?st 2 demo_playing_sdl2 2]
    by (simp add: demo_quantities)
qed

subsection \<open>The time right after a seek\<close>

lemma within_buffer_index:
  assumes ld: "loaded s" and w: "within_buffer t s"
  shows "\<exists>i. seek_index t s = Inr i \<and> unat i = target_frame t s * nat (sint (channels s))"
proof -
  from w have t: "0 \<le> t"
    and le: "target_frame t s * nat (sint (channels s)) \<le> length (audioBuffer s)"
    by (simp_all add: within_buffer_def)
  from ld have "length (audioBuffer s) < 2 ^ 32" by (simp add: loaded_def)
  with le have fits: "target_frame t s * nat (sint (channels s)) < 2 ^ 32"
    by (rule le_less_trans)
  from seek_index_exact [OF ld t fits] le show ?thesis
    by (simp add: min_def)
qed

lemma time_after_seek_playing:
  assumes ld: "loaded s" and st: "stream s = Some st" and pl: "isPlaying s"
    and w: "within_buffer t s"
  shows "time_after_seek t s = Inr (frame_start t s)"
proof -
  let ?c = "nat (sint (channels s))"
  from within_buffer_index [OF ld w] obtain i where i: "seek_index t s = Inr i"
    and ui: "unat i = target_frame t s * ?c"
    by (elim exE conjE)
  from w ui have le: "unat i \<le> length (audioBuffer s)"
    by (simp add: within_buffer_def)
  from ld have "0 < ?c" by (simp add: loaded_def)
  with ui have fr: "unat i div ?c = target_frame t s" by simp
  from seek_then_time [OF ld st pl i le] obtain s' where "seek t s = Inr s'"
    and "get_current_time s' = Inr (real (unat i div ?c) / real_of_int (sint (sampleRate s)))"
    by (elim exE conjE)
  then show ?thesis
    by (simp add: time_after_seek_def frame_start_def fr del: of_int_sint)
qed

lemma time_after_seek_sdl2_playing:
  assumes ld: "loaded_sdl2 s" and st: "stream s = Some st" and pl: "isPlaying s"
    and w: "within_buffer t s"
    and small: "delivers_int st (drop (target_frame t s * nat (sint (channels s))) (audioBuffer s))"
  shows "time_after_seek_sdl2 t s =
           Inr (max 0 (total_duration s -
                  queued_seconds s st
                    (drop (target_frame t s * nat (sint (channels s))) (audioBuffer s))))"
proof -
  let ?c = "nat (sint (channels s))"
  from ld have ld3: "loaded s" by (simp add: loaded_sdl2_def)
  from within_buffer_index [OF ld3 w] obtain i where i: "seek_index t s = Inr i"
    and ui: "unat i = target_frame t s * ?c"
    by (elim exE conjE)
  from w ui have le: "unat i \<le> length (audioBuffer s)"
    by (simp add: within_buffer_def)
  from small ui have small': "delivers_int st (drop (unat i) (audioBuffer s))"
    by simp
  from seek_sdl2_then_time [OF ld st pl i le small'] obtain s' where "seek_sdl2 t s = Inr s'"
    and "get_current_time_sdl2 s' =
           Inr (max 0 (total_duration s - queued_seconds s st (drop (unat i) (audioBuffer s))))"
    by (elim exE conjE)
  then show ?thesis
    by (simp only: time_after_seek_sdl2_def ui sum.case)
qed

lemma kept_duration_frame_start:
  assumes ld: "loaded_sdl2 s" and w: "within_buffer t s"
    and keep: "keeps_duration s st (drop (target_frame t s * nat (sint (channels s))) (audioBuffer s))"
  shows "max 0 (total_duration s -
           queued_seconds s st (drop (target_frame t s * nat (sint (channels s))) (audioBuffer s)))
         = frame_start t s"
proof -
  let ?c = "nat (sint (channels s))" and ?r = "real_of_int (sint (sampleRate s))"
  let ?n = "target_frame t s * ?c"
  from ld have ld3: "loaded s" by (simp add: loaded_sdl2_def)
  from w have le: "?n \<le> length (audioBuffer s)"
    by (simp add: within_buffer_def)
  from ld3 have c: "0 < sint (channels s)" and r: "0 < ?r"
    by (simp_all add: loaded_def del: of_int_sint)
  from c have rc: "real ?c = real_of_int (sint (channels s))" by (simp del: of_int_sint)
  have "real ?n / real_of_int (sint (channels s) * sint (sampleRate s))
          = (real (target_frame t s) * real ?c) / (real ?c * ?r)"
    by (simp add: rc del: of_int_sint)
  also have "\<dots> = frame_start t s"
    using c by (simp add: frame_start_def del: of_int_sint)
  finally have v: "real ?n / real_of_int (sint (channels s) * sint (sampleRate s))
          = frame_start t s" .
  from kept_duration_time [OF ld le keep] show ?thesis
    by (simp only: v)
qed

text \<open>
  C1, as the spec states it, fails for a time beyond the end of the buffer: the play
  head is clamped to the length. On the playing example, one second of audio at
  four frames a second, the time read right after a seek to 10 seconds is 1.
\<close>

theorem time_after_seek_beyond_end:
  "time_after_seek 10 demo_playing = Inr 1 \<and>
   time_after_seek_sdl2 10 demo_playing_sdl2 = Inr 1"
  by (simp add: demo_playing_eq demo_playing_sdl2_eq time_after_seek_def
      time_after_seek_sdl2_def seek_def seek_sdl2_def seek_index_def float_to_size_t_def
      float_eval Let_def buffer_size_def from_playHead_def SDL_ClearAudioStream_def
      SDL_PutAudioStreamData_def SDL_GetAudioStreamAvailable_def get_current_time_def
      SDL_AudioStreamClear_def SDL_AudioStreamPut_def SDL_AudioStreamAvailable_def
      SDL_GetQueuedAudioSize_def push_remaining_def get_current_time_sdl2_def
      demo_buffer_def plain_convert_def)

text \<open>
  C1, amended. For a loaded buffer with a valid format and a time \<open>t \<ge> 0\<close> that
  aims inside the buffer, when the engine is playing at the time of the seek, the
  time read right after \<^verbatim>\<open>seek(t)\<close>, before the device consumes anything, is
  the start of the frame the seek aims at: that frame, the \<^verbatim>\<open>float\<close> product
  \<open>t * sampleRate\<close> truncated, divided by the sample rate. Where the sample rate
  and every frame number of the buffer are below \<open>2 ^ 24\<close>, the frame is less
  than one frame away from \<open>t * sampleRate\<close>, on either side. In the SDL2 engine,
  when the bytes the stream delivers for the segment pushed fit an \<^verbatim>\<open>int\<close>, the
  time read is the total duration less the seconds those bytes last in the
  device's format, and not below 0; it is the start of the frame when the bytes
  last as long as the segment does.
\<close>

theorem time_after_seek_while_playing:
  "(loaded s \<and> stream s = Some st \<and> isPlaying s \<and> within_buffer t s \<longrightarrow>
      time_after_seek t s = Inr (frame_start t s) \<and>
      (exact_in_float s \<longrightarrow>
         \<bar>real (target_frame t s) - t * real_of_int (sint (sampleRate s))\<bar> < 1)) \<and>
   (loaded_sdl2 s2 \<and> stream s2 = Some st2 \<and> isPlaying s2 \<and> within_buffer t2 s2 \<and>
    delivers_int st2
      (drop (target_frame t2 s2 * nat (sint (channels s2))) (audioBuffer s2)) \<longrightarrow>
      time_after_seek_sdl2 t2 s2 =
        Inr (max 0 (total_duration s2 -
               queued_seconds s2 st2
                 (drop (target_frame t2 s2 * nat (sint (channels s2))) (audioBuffer s2)))) \<and>
      (keeps_duration s2 st2
         (drop (target_frame t2 s2 * nat (sint (channels s2))) (audioBuffer s2)) \<longrightarrow>
         time_after_seek_sdl2 t2 s2 = Inr (frame_start t2 s2)) \<and>
      (exact_in_float s2 \<longrightarrow>
         \<bar>real (target_frame t2 s2) - t2 * real_of_int (sint (sampleRate s2))\<bar> < 1))"
proof (intro conjI impI)
  assume "loaded s \<and> stream s = Some st \<and> isPlaying s \<and> within_buffer t s"
  then have ld: "loaded s" and st: "stream s = Some st" and pl: "isPlaying s"
    and w: "within_buffer t s"
    by simp_all
  from ld st pl w show "time_after_seek t s = Inr (frame_start t s)"
    by (rule time_after_seek_playing)
  assume "exact_in_float s"
  with ld w show "\<bar>real (target_frame t s) - t * real_of_int (sint (sampleRate s))\<bar> < 1"
    by (rule target_frame_near)
next
  let ?seg = "drop (target_frame t2 s2 * nat (sint (channels s2))) (audioBuffer s2)"
  assume "loaded_sdl2 s2 \<and> stream s2 = Some st2 \<and> isPlaying s2 \<and> within_buffer t2 s2 \<and>
    delivers_int st2 ?seg"
  then have ld: "loaded_sdl2 s2" and st: "stream s2 = Some st2" and pl: "isPlaying s2"
    and w: "within_buffer t2 s2" and small: "delivers_int st2 ?seg"
    by simp_all
  from ld st pl w small
  show v: "time_after_seek_sdl2 t2 s2 =
      Inr (max 0 (total_duration s2 - queued_seconds s2 st2 ?seg))"
    by (rule time_after_seek_sdl2_playing)
  {
    assume "keeps_duration s2 st2 ?seg"
    with ld w have "max 0 (total_duration s2 - queued_seconds s2 st2 ?seg) = frame_start t2 s2"
      by (rule kept_duration_frame_start)
    with v show "time_after_seek_sdl2 t2 s2 = Inr (frame_start t2 s2)"
      by (simp only:)
  }
  from ld have ld3: "loaded s2" by (simp add: loaded_sdl2_def)
  assume "exact_in_float s2"
  with ld3 w show "\<bar>real (target_frame t2 s2) - t2 * real_of_int (sint (sampleRate s2))\<bar> < 1"
    by (rule target_frame_near)
qed

text \<open>The witness: on the playing example a seek to 0.625 seconds aims at frame 2,
  half a frame below the product 2.5, and that frame starts at 0.5 seconds. In
  the SDL2 engine the device takes eight frames a second, twice the rate of the
  source: the four samples pushed give 32 bytes, half a second of the device's
  format.\<close>

theorem time_after_seek_while_playing_witness:
  "time_after_seek (5 / 8) demo_playing = Inr (1 / 2) \<and>
   target_frame (5 / 8) demo_playing = 2 \<and>
   time_after_seek_sdl2 (5 / 8) demo_resampled_sdl2 = Inr (1 / 2) \<and>
   queued_seconds demo_resampled_sdl2 \<lparr>convert = doubling_convert, converted = []\<rparr>
     (drop 4 demo_buffer) = 1 / 2"
proof -
  let ?st = "\<lparr>queuedSamples = demo_buffer, gain = 1, boundToDevice = True\<rparr>"
  let ?st2 = "\<lparr>convert = doubling_convert, converted = []\<rparr>"
  let ?seg = "drop (target_frame (5 / 8) demo_resampled_sdl2 *
      nat (sint (channels demo_resampled_sdl2))) (audioBuffer demo_resampled_sdl2)"
  have fs: "frame_start (5 / 8) demo_playing = 1 / 2"
    "frame_start (5 / 8) demo_resampled_sdl2 = 1 / 2"
    by (simp_all add: frame_start_def demo_quantities del: of_int_sint)
  have seg: "?seg = drop 4 demo_buffer"
    by (simp add: demo_quantities) (simp add: demo_resampled_sdl2_eq)
  have qs: "queued_seconds demo_resampled_sdl2 ?st2 (drop 4 demo_buffer) = 1 / 2"
    by (simp add: queued_seconds_def demo_resampled_sdl2_eq demo_buffer_def
        doubling_convert_def)
  have "loaded demo_playing \<and> stream demo_playing = Some ?st \<and> isPlaying demo_playing \<and>
      within_buffer (5 / 8) demo_playing"
    by (simp add: demo_states_loaded within_buffer_def demo_quantities)
      (simp add: demo_playing_eq)
  moreover have "loaded_sdl2 demo_resampled_sdl2 \<and> stream demo_resampled_sdl2 = Some ?st2 \<and>
      isPlaying demo_resampled_sdl2 \<and> within_buffer (5 / 8) demo_resampled_sdl2"
    by (simp add: demo_states_loaded within_buffer_def demo_quantities)
      (simp add: demo_resampled_sdl2_eq)
  moreover have "delivers_int ?st2 ?seg"
    by (simp only: seg) (simp add: delivers_int_def demo_buffer_def doubling_convert_def)
  moreover have "keeps_duration demo_resampled_sdl2 ?st2 ?seg"
    by (simp only: seg keeps_duration_def qs)
      (simp add: demo_resampled_sdl2_eq demo_buffer_def)
  moreover have "exact_in_float demo_playing" "exact_in_float demo_resampled_sdl2"
    by (simp_all add: demo_quantities)
  ultimately have "time_after_seek (5 / 8) demo_playing = Inr (frame_start (5 / 8) demo_playing) \<and>
      \<bar>real (target_frame (5 / 8) demo_playing) -
         5 / 8 * real_of_int (sint (sampleRate demo_playing))\<bar> < 1 \<and>
      time_after_seek_sdl2 (5 / 8) demo_resampled_sdl2 =
        Inr (frame_start (5 / 8) demo_resampled_sdl2) \<and>
      \<bar>real (target_frame (5 / 8) demo_resampled_sdl2) -
         5 / 8 * real_of_int (sint (sampleRate demo_resampled_sdl2))\<bar> < 1"
    using time_after_seek_while_playing
      [of demo_playing ?st "5 / 8" demo_resampled_sdl2 ?st2 "5 / 8"]
    by blast
  then show ?thesis
    by (simp add: fs qs demo_quantities)
qed

end
